theory Spec2Isabelle
  imports Main
begin

section \<open>Python strings\<close>

text \<open>
  A Python \<open>str\<close> is a sequence of Unicode code points, and \<open>len\<close> counts code points.
  A code point is modelled as a natural number and a string as a list of them; \<open>lit\<close>
  embeds an ASCII literal of the source.
\<close>

type_synonym pystr = "nat list"

definition lit :: "string \<Rightarrow> pystr" where
  "lit cs = map of_char cs"

definition ch :: "char \<Rightarrow> nat" where
  "ch c = of_char c"

text \<open>
  The parts of the Python runtime that are tables of the Unicode database, or that belong
  to a library whose checks vary between versions, are parameters of the model:
  \<^item> \<open>uni_alnum c\<close>: \<open>str.isalnum\<close> of the code point \<open>c \<ge> 128\<close>;
  \<^item> \<open>uni_lower s\<close>: \<open>str.lower\<close> of a string \<open>s\<close> that is not pure ASCII;
  \<^item> \<open>netloc_error n\<close>: the message of the \<open>ValueError\<close> that \<open>urlsplit\<close> raises for the
    host part \<open>n\<close> beyond the bracket test written out below (invalid bracketed host,
    NFKC check), if it raises one;
  \<^item> \<open>int_of_str s\<close>: \<open>int(s)\<close>, \<open>Inl\<close> carrying the message of its \<open>ValueError\<close>.
\<close>

record pylib =
  uni_alnum :: "nat \<Rightarrow> bool"
  uni_lower :: "pystr \<Rightarrow> pystr"
  netloc_error :: "pystr \<Rightarrow> pystr option"
  int_of_str :: "pystr \<Rightarrow> pystr + int"

definition ascii_alnum :: "nat \<Rightarrow> bool" where
  "ascii_alnum c \<longleftrightarrow> (48 \<le> c \<and> c \<le> 57) \<or> (65 \<le> c \<and> c \<le> 90) \<or> (97 \<le> c \<and> c \<le> 122)"

text \<open>The class \<open>\w\<close> of \<open>re\<close> on a \<open>str\<close> pattern: alphanumeric in Unicode, or the underscore.\<close>

definition word_char :: "pylib \<Rightarrow> nat \<Rightarrow> bool" where
  "word_char lib c \<longleftrightarrow> (if c < 128 then ascii_alnum c \<or> c = ch CHR ''_'' else uni_alnum lib c)"

text \<open>\<open>re.sub(r'[^\w\-_.]', '_', filename)\<close>: every code point outside the class becomes \<open>_\<close>.\<close>

definition kept_char :: "pylib \<Rightarrow> nat \<Rightarrow> bool" where
  "kept_char lib c \<longleftrightarrow>
     word_char lib c \<or> c = ch CHR ''-'' \<or> c = ch CHR ''_'' \<or> c = ch CHR ''.''"

definition re_sub_unsafe :: "pylib \<Rightarrow> pystr \<Rightarrow> pystr" where
  "re_sub_unsafe lib filename = map (\<lambda>c. if kept_char lib c then c else ch CHR ''_'') filename"

subsection \<open>String methods\<close>

text \<open>
  \<open>before c s\<close> is \<open>s.split(c)[0]\<close>, \<open>after_last c s\<close> is \<open>s.split(c)[-1]\<close>
  (the same as \<open>s[s.rfind(c)+1:]\<close>), and \<open>upto_last c s\<close> is \<open>s[:s.rfind(c)+1]\<close>.
\<close>

definition before :: "nat \<Rightarrow> pystr \<Rightarrow> pystr" where
  "before c s = takeWhile (\<lambda>x. x \<noteq> c) s"

definition after_last :: "nat \<Rightarrow> pystr \<Rightarrow> pystr" where
  "after_last c s = rev (takeWhile (\<lambda>x. x \<noteq> c) (rev s))"

definition upto_last :: "nat \<Rightarrow> pystr \<Rightarrow> pystr" where
  "upto_last c s = rev (dropWhile (\<lambda>x. x \<noteq> c) (rev s))"

text \<open>\<open>str.isspace\<close> of one code point, and \<open>str.strip()\<close>.\<close>

definition py_isspace :: "nat \<Rightarrow> bool" where
  "py_isspace c \<longleftrightarrow>
     (9 \<le> c \<and> c \<le> 13) \<or> (28 \<le> c \<and> c \<le> 32) \<or> c = 133 \<or> c = 160 \<or> c = 5760 \<or>
     (8192 \<le> c \<and> c \<le> 8202) \<or> c = 8232 \<or> c = 8233 \<or> c = 8239 \<or> c = 8287 \<or> c = 12288"

definition strip :: "pystr \<Rightarrow> pystr" where
  "strip s = rev (dropWhile py_isspace (rev (dropWhile py_isspace s)))"

text \<open>
  \<open>str.lower()\<close>: on an ASCII string it maps \<open>A-Z\<close> to \<open>a-z\<close>; any other string is
  lowered by the Unicode tables.
\<close>

definition ascii_lower :: "nat \<Rightarrow> nat" where
  "ascii_lower c = (if 65 \<le> c \<and> c \<le> 90 then c + 32 else c)"

definition py_lower :: "pylib \<Rightarrow> pystr \<Rightarrow> pystr" where
  "py_lower lib s = (if list_all (\<lambda>c. c < 128) s then map ascii_lower s else uni_lower lib s)"

definition startswith :: "pystr \<Rightarrow> pystr \<Rightarrow> bool" where
  "startswith s p \<longleftrightarrow> take (length p) s = p"

text \<open>\<open>str(n)\<close> of a natural number, and the value of a digit string.\<close>

function str_nat :: "nat \<Rightarrow> pystr" where
  "str_nat n = (if n < 10 then [48 + n] else str_nat (n div 10) @ [48 + n mod 10])"
  by pat_completeness auto
termination
  by (relation "measure (\<lambda>n. n)") auto

definition nat_of_digits :: "pystr \<Rightarrow> nat" where
  "nat_of_digits ds = foldl (\<lambda>a d. 10 * a + (d - 48)) 0 ds"

declare str_nat.simps [simp del]

lemma nat_of_digits_snoc: "nat_of_digits (ds @ [d]) = 10 * nat_of_digits ds + (d - 48)"
  by (simp add: nat_of_digits_def)

lemma nat_of_digits_str_nat: "nat_of_digits (str_nat n) = n"
proof (induction n rule: str_nat.induct)
  case (1 n)
  show ?case
  proof (cases "n < 10")
    case True
    then show ?thesis
      by (subst str_nat.simps) (simp add: nat_of_digits_def)
  next
    case False
    with 1 have "nat_of_digits (str_nat (n div 10)) = n div 10"
      by simp
    with False show ?thesis
      by (subst str_nat.simps) (simp add: nat_of_digits_snoc)
  qed
qed

lemma str_nat_inj: "str_nat m = str_nat n \<Longrightarrow> m = n"
  using nat_of_digits_str_nat by metis

subsection \<open>Exceptions\<close>

text \<open>
  An exception is classified by the first \<open>except\<close> clause of \<open>download_image\<close> that its
  class matches, in the order of the source; the argument is \<open>str(e)\<close> where the handler
  prints it. \<open>ValueError\<close> and \<open>EOFError\<close> are \<open>Exception\<close>s.
\<close>

datatype exn =
    Timeout
  | ConnectionError
  | HTTPError pystr
  | TooManyRedirects
  | RequestException pystr
  | IOError pystr
  | Exception pystr

text \<open>The kinds of non-fatal error that the specification lists, and the kind of an exception.\<close>

datatype error_kind =
    NetworkTimeout
  | ConnectionFailure
  | HttpStatusError
  | TooManyRedirectsError
  | GenericTransportError
  | LocalIOFailure
  | UnexpectedError

fun kind_of :: "exn \<Rightarrow> error_kind" where
  "kind_of Timeout = NetworkTimeout"
| "kind_of ConnectionError = ConnectionFailure"
| "kind_of (HTTPError msg) = HttpStatusError"
| "kind_of TooManyRedirects = TooManyRedirectsError"
| "kind_of (RequestException msg) = GenericTransportError"
| "kind_of (IOError msg) = LocalIOFailure"
| "kind_of (Exception msg) = UnexpectedError"

subsection \<open>\<open>os.path\<close> (POSIX)\<close>

definition slash :: nat where
  "slash = ch CHR ''/''"

definition dot :: nat where
  "dot = ch CHR ''.''"

definition backslash :: nat where
  "backslash = 92"

definition basename :: "pystr \<Rightarrow> pystr" where
  "basename p = after_last slash p"

definition join :: "pystr \<Rightarrow> pystr \<Rightarrow> pystr" where
  "join a b =
     (if startswith b [slash] then b
      else if a = [] \<or> last a = slash then a @ b
      else a @ [slash] @ b)"

text \<open>\<open>os.path.dirname\<close>: the part up to the last slash, without trailing slashes unless it is the root.\<close>

definition dirname :: "pystr \<Rightarrow> pystr" where
  "dirname p =
     (let head = upto_last slash p
      in if list_all (\<lambda>c. c = slash) head then head
         else rev (dropWhile (\<lambda>c. c = slash) (rev head)))"

text \<open>
  \<open>os.path.splitext\<close>: the extension starts at the last dot of the last path component,
  leading dots of that component not counting.
\<close>

definition splitext :: "pystr \<Rightarrow> pystr \<times> pystr" where
  "splitext p =
     (let head = upto_last slash p;
          base = after_last slash p;
          dots = takeWhile (\<lambda>c. c = dot) base;
          rest = dropWhile (\<lambda>c. c = dot) base
      in if dot \<in> set rest
         then (head @ dots @ butlast (upto_last dot rest), dot # after_last dot rest)
         else (p, []))"

subsection \<open>\<open>urllib.parse.urlparse(url).path\<close>\<close>

text \<open>
  The path component as CPython 3.11 computes it: leading C0 controls and spaces are
  stripped, tab, CR and LF removed, then scheme, host part, fragment, query and the
  parameters of the last segment are split off. \<open>ValueError\<close> is raised for a host part
  with one bracket but not the other, and where \<open>netloc_error\<close> says so.
\<close>

definition scheme_char :: "nat \<Rightarrow> bool" where
  "scheme_char c \<longleftrightarrow> ascii_alnum c \<or> c = ch CHR ''+'' \<or> c = ch CHR ''-'' \<or> c = dot"

definition ascii_alpha :: "nat \<Rightarrow> bool" where
  "ascii_alpha c \<longleftrightarrow> (65 \<le> c \<and> c \<le> 90) \<or> (97 \<le> c \<and> c \<le> 122)"

definition uses_params :: "pystr list" where
  "uses_params = map lit [[], ''ftp'', ''hdl'', ''prospero'', ''http'', ''imap'',
     ''https'', ''shttp'', ''rtsp'', ''rtsps'', ''rtspu'', ''sip'', ''sips'', ''mms'',
     ''sftp'', ''tel'']"

definition split_scheme :: "pystr \<Rightarrow> pystr \<times> pystr" where
  "split_scheme url =
     (let colon = ch CHR '':''; s = before colon url
      in if colon \<in> set url \<and> s \<noteq> [] \<and> ascii_alpha (hd url) \<and> list_all scheme_char s
         then (map ascii_lower s, drop (length s + 1) url)
         else ([], url))"

definition netloc_delim :: "nat \<Rightarrow> bool" where
  "netloc_delim c \<longleftrightarrow> c = slash \<or> c = ch CHR ''?'' \<or> c = ch CHR ''#''"

definition splitparams :: "pystr \<Rightarrow> pystr" where
  "splitparams url = upto_last slash url @ before (ch CHR '';'') (after_last slash url)"

definition urlparse_path :: "pylib \<Rightarrow> pystr \<Rightarrow> exn + pystr" where
  "urlparse_path lib url0 =
     (let url = dropWhile (\<lambda>c. c \<le> 32) url0;
          url = filter (\<lambda>c. c \<noteq> 9 \<and> c \<noteq> 13 \<and> c \<noteq> 10) url;
          (scheme, url) = split_scheme url;
          has_netloc = startswith url [slash, slash];
          netloc = (if has_netloc then takeWhile (\<lambda>c. \<not> netloc_delim c) (drop 2 url) else []);
          url = (if has_netloc then dropWhile (\<lambda>c. \<not> netloc_delim c) (drop 2 url) else url);
          lb = ch CHR ''[''; rb = ch CHR '']''
      in if (lb \<in> set netloc \<and> rb \<notin> set netloc) \<or> (rb \<in> set netloc \<and> lb \<notin> set netloc)
         then Inl (Exception (lit ''Invalid IPv6 URL''))
         else case netloc_error lib netloc of
           Some msg \<Rightarrow> Inl (Exception msg)
         | None \<Rightarrow>
             let url = before (ch CHR ''#'') url;
                 url = before (ch CHR ''?'') url;
                 url = (if scheme \<in> set uses_params \<and> ch CHR '';'' \<in> set url
                        then splitparams url else url)
             in Inr url)"

section \<open>Filename Resolver\<close>

text \<open>Lines 28 to 33 of \<open>get_valid_filename\<close>: the extension of a synthesized name.\<close>

definition fallback_extension :: "pystr \<Rightarrow> pystr" where
  "fallback_extension content_type =
     (if content_type \<noteq> [] \<and> slash \<in> set content_type
      then strip (before (ch CHR '';'') (after_last slash content_type))
      else lit ''bin'')"

text \<open>
  Lines 22 to 41: the name before the sanitization step. \<open>timestamp\<close> is what
  \<open>datetime.now().strftime("%Y%m%d_%H%M%S")\<close> returns at the call.
\<close>

definition rejected :: "pystr \<Rightarrow> bool" where
  "rejected filename \<longleftrightarrow> filename = [] \<or> dot \<notin> set filename \<or> length filename > 100"

definition unsanitized_filename :: "pylib \<Rightarrow> pystr \<Rightarrow> pystr \<Rightarrow> pystr \<Rightarrow> exn + pystr" where
  "unsanitized_filename lib timestamp url content_type =
     (case urlparse_path lib url of
        Inl e \<Rightarrow> Inl e
      | Inr path \<Rightarrow>
          let filename = basename path;
              filename = (if rejected filename
                          then lit ''image_'' @ timestamp @ lit ''.'' @ fallback_extension content_type
                          else filename)
          in Inr (before (ch CHR ''?'') filename))"

definition get_valid_filename :: "pylib \<Rightarrow> pystr \<Rightarrow> pystr \<Rightarrow> pystr \<Rightarrow> exn + pystr" where
  "get_valid_filename lib timestamp url content_type =
     (case unsanitized_filename lib timestamp url content_type of
        Inl e \<Rightarrow> Inl e
      | Inr filename \<Rightarrow> Inr (re_sub_unsafe lib filename))"

section \<open>Facts about strings and paths\<close>

lemma before_excludes: "c \<notin> set (before c s)"
  by (auto simp: before_def dest: set_takeWhileD)

lemma set_before: "set (before c s) \<subseteq> set s"
  by (auto simp: before_def dest: set_takeWhileD)

lemma before_absent: "c \<notin> set s \<Longrightarrow> before c s = s"
  by (auto simp: before_def)

lemma upto_after_last: "upto_last c s @ after_last c s = s"
proof -
  have "rev (upto_last c s @ after_last c s) = rev s"
    by (simp add: upto_last_def after_last_def)
  then show ?thesis
    using rev_is_rev_conv by blast
qed

lemma after_last_excludes: "c \<notin> set (after_last c s)"
  by (auto simp: after_last_def dest: set_takeWhileD)

lemma set_after_last: "set (after_last c s) \<subseteq> set s"
  by (auto simp: after_last_def dest: set_takeWhileD)

lemma set_upto_last: "set (upto_last c s) \<subseteq> set s"
  by (auto simp: upto_last_def dest: set_dropWhileD)

lemma set_splitparams: "set (splitparams u) \<subseteq> set u"
  using set_upto_last [of slash u] set_before [of "ch CHR '';''" "after_last slash u"]
    set_after_last [of slash u]
  by (auto simp: splitparams_def)

lemma after_last_append:
  assumes "c \<notin> set f" and "P = [] \<or> last P = c"
  shows "after_last c (P @ f) = f"
proof (cases P rule: rev_cases)
  case Nil
  have t: "takeWhile (\<lambda>x. x \<noteq> c) (rev f) = rev f"
    using assms(1) by (auto simp: takeWhile_eq_all_conv)
  show ?thesis
    by (simp only: after_last_def Nil append_Nil t rev_rev_ident)
next
  case (snoc Q x)
  with assms(2) have "x = c" by simp
  have "\<And>x. x \<in> set (rev f) \<Longrightarrow> x \<noteq> c"
    using assms(1) by auto
  then have "takeWhile (\<lambda>x. x \<noteq> c) (rev f @ c # rev Q)
      = rev f @ takeWhile (\<lambda>x. x \<noteq> c) (c # rev Q)"
    by (rule takeWhile_append2)
  then have t: "takeWhile (\<lambda>x. x \<noteq> c) (rev f @ c # rev Q) = rev f"
    by simp
  have "rev (P @ f) = rev f @ c # rev Q"
    using snoc \<open>x = c\<close> by simp
  then show ?thesis
    by (simp only: after_last_def t rev_rev_ident)
qed

lemma upto_last_append:
  "c \<notin> set f \<Longrightarrow> P = [] \<or> last P = c \<Longrightarrow> upto_last c (P @ f) = P"
  using upto_after_last [of c "P @ f"] after_last_append [of c f P] by simp

lemma splitext_prefix:
  assumes "slash \<notin> set f" and "P = [] \<or> last P = slash"
  shows "splitext (P @ f) = (P @ fst (splitext f), snd (splitext f))"
proof -
  have a: "after_last slash (P @ f) = f" "upto_last slash (P @ f) = P"
    using assms by (simp_all add: after_last_append upto_last_append)
  have b: "after_last slash f = f" "upto_last slash f = []"
    using assms(1) after_last_append [of slash f "[]"] upto_last_append [of slash f "[]"]
    by simp_all
  show ?thesis
    by (simp add: splitext_def a b Let_def)
qed

lemma upto_last_snoc:
  assumes "c \<in> set s"
  shows "butlast (upto_last c s) @ [c] = upto_last c s"
proof -
  let ?d = "dropWhile (\<lambda>x. x \<noteq> c) (rev s)"
  have ne: "?d \<noteq> []"
    using assms by (simp add: dropWhile_eq_Nil_conv)
  then have "hd ?d = c"
    using hd_dropWhile [of "\<lambda>x. x \<noteq> c" "rev s"] by simp
  with ne have "last (rev ?d) = c" "rev ?d \<noteq> []"
    by (simp_all add: last_rev)
  then show ?thesis
    unfolding upto_last_def using append_butlast_last_id [of "rev ?d"] by simp
qed

lemma splitext_concat: "fst (splitext p) @ snd (splitext p) = p"
proof (cases "dot \<in> set (dropWhile (\<lambda>c. c = dot) (after_last slash p))")
  case False
  then show ?thesis by (simp add: splitext_def Let_def)
next
  case True
  define base where "base = after_last slash p"
  define rest where "rest = dropWhile (\<lambda>c. c = dot) base"
  have "(butlast (upto_last dot rest) @ [dot]) @ after_last dot rest = rest"
    using True upto_last_snoc [of dot rest] upto_after_last [of dot rest]
    unfolding rest_def base_def by simp
  then have r: "butlast (upto_last dot rest) @ dot # after_last dot rest = rest"
    by simp
  have "takeWhile (\<lambda>c. c = dot) base @ rest = base"
    unfolding rest_def by simp
  with r have "upto_last slash p @ takeWhile (\<lambda>c. c = dot) base @
      butlast (upto_last dot rest) @ dot # after_last dot rest = p"
    using upto_after_last [of slash p] unfolding base_def by simp
  with True show ?thesis
    by (simp add: splitext_def Let_def rest_def base_def)
qed

lemma set_str_nat: "set (str_nat n) \<subseteq> {48..57}"
proof (induction n rule: str_nat.induct)
  case (1 n)
  show ?case
  proof (cases "n < 10")
    case True
    then show ?thesis by (subst str_nat.simps) simp
  next
    case False
    with 1 have "set (str_nat (n div 10)) \<subseteq> {48..57}" by simp
    moreover have "n mod 10 < 10" by simp
    ultimately show ?thesis
      using False by (subst str_nat.simps) auto
  qed
qed

lemma set_splitext: "set (fst (splitext p)) \<union> set (snd (splitext p)) = set p"
  using splitext_concat [of p] by (metis set_append)

lemma after_last_append_tail:
  assumes "c \<notin> set t"
  shows "after_last c (s @ t) = after_last c s @ t"
proof -
  have "\<And>x. x \<in> set (rev t) \<Longrightarrow> x \<noteq> c"
    using assms by auto
  then have "takeWhile (\<lambda>x. x \<noteq> c) (rev t @ rev s) = rev t @ takeWhile (\<lambda>x. x \<noteq> c) (rev s)"
    by (rule takeWhile_append2)
  then show ?thesis
    by (simp add: after_last_def)
qed

lemma splitext_ext_no_slash: "slash \<notin> set (snd (splitext p))"
proof -
  let ?rest = "dropWhile (\<lambda>c. c = dot) (after_last slash p)"
  have "set (after_last dot ?rest) \<subseteq> set (after_last slash p)"
    using set_after_last [of dot ?rest] set_dropWhileD by fastforce
  then have "slash \<notin> set (after_last dot ?rest)"
    using after_last_excludes [of slash p] by auto
  then show ?thesis
    by (simp add: splitext_def Let_def slash_def dot_def ch_def)
qed

section \<open>Fetcher\<close>

subsection \<open>The disk\<close>

text \<open>
  The disk lists its files and directories under the path strings by which the program
  reaches them. Besides the listed entries, every directory holds the entries \<open>.\<close> and
  \<open>..\<close>, which are directories, a directory is also reached with a trailing slash, and the
  root exists. A relative path with an empty directory part lies in the current directory,
  which exists.
\<close>

type_synonym bytes = "nat list"

datatype node = File bytes | Directory

type_synonym filesystem = "(pystr \<times> node) list"

definition special_name :: "pystr \<Rightarrow> bool" where
  "special_name g \<longleftrightarrow> g = lit ''.'' \<or> g = lit ''..''"

text \<open>A plain name: not empty, without a separator, and neither \<open>.\<close> nor \<open>..\<close>.\<close>

definition plain_name :: "pystr \<Rightarrow> bool" where
  "plain_name g \<longleftrightarrow> g \<noteq> [] \<and> slash \<notin> set g \<and> backslash \<notin> set g \<and> \<not> special_name g"

lemma length_dirname: "length (dirname d) \<le> length (upto_last slash d)"
proof -
  have "length (dropWhile (\<lambda>c. c = slash) (rev (upto_last slash d)))
          \<le> length (rev (upto_last slash d))"
    by (rule length_dropWhile_le)
  then show ?thesis
    by (simp add: dirname_def Let_def)
qed

lemma dirname_shorter:
  assumes "\<not> (d \<noteq> [] \<and> list_all (\<lambda>c. c = slash) d)"
    and "special_name (basename d) \<or> (basename d = [] \<and> d \<noteq> [])"
  shows "length (dirname d) < length d"
proof (cases "basename d = []")
  case False
  have "length (upto_last slash d) + length (basename d) = length d"
    using upto_after_last [of slash d] by (metis basename_def length_append)
  with False length_dirname [of d] show ?thesis
    by (cases "basename d") auto
next
  case True
  with assms(2) have ne: "d \<noteq> []"
    by (auto simp: special_name_def lit_def)
  from True have h: "upto_last slash d = d"
    using upto_after_last [of slash d] by (simp add: basename_def)
  from assms(1) ne have ns: "\<not> list_all (\<lambda>c. c = slash) d"
    by simp
  have "dropWhile (\<lambda>x. x \<noteq> slash) (rev d) = rev d"
    using h by (metis rev_rev_ident upto_last_def)
  then have "hd (rev d) = slash"
    using ne hd_dropWhile [of "\<lambda>x. x \<noteq> slash" "rev d"] by auto
  then obtain t where t: "rev d = slash # t"
    using ne by (cases "rev d") auto
  have "length (dropWhile (\<lambda>c. c = slash) (rev d)) \<le> length t"
    unfolding t by (simp add: length_dropWhile_le)
  then have "length (dropWhile (\<lambda>c. c = slash) (rev d)) < length d"
    using t by (metis length_Cons length_rev less_Suc_eq_le)
  with h ns show ?thesis
    by (simp add: dirname_def Let_def)
qed

text \<open>\<open>os.path.isdir\<close> and \<open>os.path.exists\<close>.\<close>

function is_dir :: "filesystem \<Rightarrow> pystr \<Rightarrow> bool" where
  "is_dir fs d =
     (if d \<noteq> [] \<and> list_all (\<lambda>c. c = slash) d then True
      else if map_of fs d = Some Directory then True
      else if special_name (basename d) \<or> (basename d = [] \<and> d \<noteq> [])
           then dirname d = [] \<or> is_dir fs (dirname d)
      else False)"
  by pat_completeness auto
termination
  by (relation "measure (\<lambda>(fs, d). length d)") (auto intro: dirname_shorter)

declare is_dir.simps [simp del]

definition path_exists :: "filesystem \<Rightarrow> pystr \<Rightarrow> bool" where
  "path_exists fs p \<longleftrightarrow> p \<in> fst ` set fs \<or> is_dir fs p"

subsection \<open>Collision resolution\<close>

text \<open>Lines 83 and 84 of \<open>download_image\<close>: the candidate with the counter before the extension.\<close>

definition suffixed :: "pystr \<Rightarrow> nat \<Rightarrow> pystr" where
  "suffixed original_filepath counter =
     (let (name, ext) = splitext original_filepath
      in name @ lit ''_'' @ str_nat counter @ ext)"

text \<open>
  The loop of lines 82 to 85. It ends because the candidates of different counters differ
  and the directory holds finitely many paths.
\<close>

text \<open>
  The loop of lines 82 to 85. It ends because the candidates of different counters differ,
  each of them is a listed entry if it exists, and the disk lists finitely many.
\<close>

lemma suffixed_inj: "suffixed p m = suffixed p n \<Longrightarrow> m = n"
  by (auto simp: suffixed_def split: prod.splits dest: str_nat_inj)

lemma basename_suffixed: "ch CHR ''_'' \<in> set (basename (suffixed p k))"
proof -
  obtain name ext where se: "splitext p = (name, ext)"
    by (cases "splitext p")
  have "slash \<notin> set ext"
    using splitext_ext_no_slash [of p] se by simp
  then have "slash \<notin> set (lit ''_'' @ str_nat k @ ext)"
    using set_str_nat [of k] by (auto simp: lit_def slash_def ch_def)
  then have "basename (name @ lit ''_'' @ str_nat k @ ext)
      = basename name @ lit ''_'' @ str_nat k @ ext"
    unfolding basename_def by (rule after_last_append_tail)
  with se show ?thesis
    by (simp add: suffixed_def lit_def ch_def)
qed

lemma path_exists_listed:
  assumes "ch CHR ''_'' \<in> set (basename q)"
  shows "path_exists fs q \<longleftrightarrow> q \<in> fst ` set fs"
proof -
  have b: "basename q \<noteq> []" "\<not> special_name (basename q)"
    using assms by (auto simp: special_name_def lit_def ch_def)
  have "ch CHR ''_'' \<in> set q"
    using assms set_after_last [of slash q] by (auto simp: basename_def)
  then have "\<not> list_all (\<lambda>c. c = slash) q"
    by (auto simp: list_all_iff slash_def ch_def intro!: bexI [of _ "95::nat"])
  with b have "is_dir fs q \<longleftrightarrow> map_of fs q = Some Directory"
    by (subst is_dir.simps) simp
  then show ?thesis
    by (auto simp: path_exists_def dest: map_of_SomeD intro: rev_image_eqI)
qed

definition taken_from :: "filesystem \<Rightarrow> pystr \<Rightarrow> nat \<Rightarrow> nat set" where
  "taken_from fs p c = {k. c \<le> k \<and> path_exists fs (suffixed p k)}"

lemma finite_taken_from: "finite (taken_from fs p c)"
proof -
  have "taken_from fs p c \<subseteq> suffixed p -` (fst ` set fs)"
    using path_exists_listed [OF basename_suffixed] by (auto simp: taken_from_def)
  moreover have "finite (suffixed p -` (fst ` set fs))"
    by (rule finite_vimageI) (auto simp: inj_on_def dest: suffixed_inj)
  ultimately show ?thesis
    by (rule finite_subset)
qed

lemma taken_from_step:
  "taken_from fs p c = (if path_exists fs (suffixed p c) then {c} else {}) \<union> taken_from fs p (Suc c)"
  by (auto simp: taken_from_def Suc_le_eq le_less)

lemma card_taken_from:
  "card (taken_from fs p c) =
     (if path_exists fs (suffixed p c) then 1 else 0) + card (taken_from fs p (Suc c))"
proof -
  have "c \<notin> taken_from fs p (Suc c)"
    by (simp add: taken_from_def)
  then show ?thesis
    by (subst taken_from_step) (simp add: finite_taken_from)
qed

function probe :: "filesystem \<Rightarrow> pystr \<Rightarrow> pystr \<Rightarrow> nat \<Rightarrow> pystr" where
  "probe fs original_filepath filepath counter =
     (if path_exists fs filepath
      then probe fs original_filepath (suffixed original_filepath counter) (counter + 1)
      else filepath)"
  by pat_completeness auto
termination
proof (relation "measure (\<lambda>(fs, original, filepath, counter).
    card (taken_from fs original counter) + (if path_exists fs filepath then 1 else 0))")
  show "wf (measure (\<lambda>(fs, original, filepath, counter).
    card (taken_from fs original counter) + (if path_exists fs filepath then 1 else 0)))"
    by simp
next
  fix fs :: filesystem and original_filepath filepath :: pystr and counter :: nat
  assume "path_exists fs filepath"
  then show "((fs, original_filepath, suffixed original_filepath counter, counter + 1),
              (fs, original_filepath, filepath, counter))
             \<in> measure (\<lambda>(fs, original, filepath, counter).
    card (taken_from fs original counter) + (if path_exists fs filepath then 1 else 0))"
    using card_taken_from [of fs original_filepath counter] by simp
qed

declare probe.simps [simp del]

text \<open>Lines 77 to 85: the path the download is written to.\<close>

definition free_path :: "filesystem \<Rightarrow> pystr \<Rightarrow> pystr \<Rightarrow> pystr" where
  "free_path fs download_dir filename =
     (let filepath = join download_dir filename in probe fs filepath filepath 1)"

text \<open>
  \<open>numbered filename k\<close> is \<open>filename\<close> for \<open>k = 0\<close>, and \<open>filename\<close> with \<open>_k\<close> before its
  extension otherwise.
\<close>

definition numbered :: "pystr \<Rightarrow> nat \<Rightarrow> pystr" where
  "numbered filename k = (if k = 0 then filename else suffixed filename k)"

subsection \<open>The world of a run\<close>

text \<open>
  What \<open>print\<close> writes is a list of entries: a text, or one of the two numeric reports of
  \<open>download_image\<close> (the progress line with the bytes so far and the declared total, and
  the size of the saved file), kept as numbers.

  A response of \<open>requests.get\<close>: \<open>status_error\<close> is the message of the \<open>HTTPError\<close> that
  \<open>raise_for_status\<close> raises, if the status is an error; the two headers may be absent;
  \<open>iter_content n\<close> is the list of pieces that \<open>response.iter_content(chunk_size=n)\<close>
  yields, whatever their lengths, and \<open>body_error\<close> the exception that the stream raises
  after them, if any.

  The world: the disk, the lines that \<open>input\<close> will read (none left is \<open>EOFError\<close>), what
  was printed, the URLs requested so far, what the network answers to a \<open>GET\<close> of a URL,
  the timestamp that the clock gives, and the paths for which \<open>open\<close> or \<open>os.makedirs\<close>
  raise \<open>OSError\<close> for a reason that the disk does not show (permissions, a full disk), with
  the message.
\<close>

datatype printed = Text pystr | Progress nat int | FileSize nat

record response =
  status_error :: "pystr option"
  content_type_header :: "pystr option"
  content_length_header :: "pystr option"
  iter_content :: "nat \<Rightarrow> bytes list"
  body_error :: "exn option"

record world =
  files :: filesystem
  stdin :: "pystr list"
  stdout :: "printed list"
  requested :: "pystr list"
  http :: "pystr \<Rightarrow> exn + response"
  clock :: pystr
  open_fault :: "pystr \<Rightarrow> pystr option"
  mkdir_fault :: "pystr \<Rightarrow> pystr option"

definition print :: "pystr \<Rightarrow> world \<Rightarrow> world" where
  "print s w = w\<lparr>stdout := stdout w @ [Text s]\<rparr>"

definition py_input :: "pystr \<Rightarrow> world \<Rightarrow> (exn + pystr) \<times> world" where
  "py_input prompt w =
     (case stdin w of
        [] \<Rightarrow> (Inl (Exception (lit ''EOF when reading a line'')), print prompt w)
      | line # rest \<Rightarrow> (Inr line, (print prompt w)\<lparr>stdin := rest\<rparr>))"

text \<open>
  \<open>open(path, 'wb')\<close> raises \<open>OSError\<close> when the directory part of the path is not a
  directory, when the path names a directory, or when the world says so; otherwise it
  creates the file or truncates it. \<open>file.write\<close> appends to the file.
\<close>

definition open_error :: "world \<Rightarrow> pystr \<Rightarrow> pystr option" where
  "open_error w p =
     (if \<not> (dirname p = [] \<or> is_dir (files w) (dirname p))
      then Some (lit ''No such file or directory'')
      else if basename p = [] \<or> is_dir (files w) p then Some (lit ''Is a directory'')
      else open_fault w p)"

definition open_wb :: "filesystem \<Rightarrow> pystr \<Rightarrow> filesystem" where
  "open_wb fs p = (p, File []) # filter (\<lambda>(q, n). q \<noteq> p) fs"

definition file_write :: "filesystem \<Rightarrow> pystr \<Rightarrow> bytes \<Rightarrow> filesystem" where
  "file_write fs p chunk =
     map (\<lambda>(q, n). case n of File c \<Rightarrow> if q = p then (q, File (c @ chunk)) else (q, n)
                      | Directory \<Rightarrow> (q, n)) fs"

subsection \<open>\<open>download_image\<close>\<close>

text \<open>Lines 93 to 99: the loop over the chunks.\<close>

fun write_chunks :: "pystr \<Rightarrow> int \<Rightarrow> bytes list \<Rightarrow> nat \<Rightarrow> world \<Rightarrow> world" where
  "write_chunks filepath total_size [] downloaded w = w"
| "write_chunks filepath total_size (chunk # chunks) downloaded w =
     (if chunk \<noteq> [] then
        let w1 = w\<lparr>files := file_write (files w) filepath chunk\<rparr>;
            downloaded = downloaded + length chunk;
            w2 = (if total_size > 0
                  then w1\<lparr>stdout := stdout w1 @ [Progress downloaded total_size]\<rparr> else w1)
        in write_chunks filepath total_size chunks downloaded w2
      else write_chunks filepath total_size chunks downloaded w)"

text \<open>
  The values that \<open>downloaded\<close> takes in that loop: the running total of the lengths of
  the non-empty chunks.
\<close>

fun running_totals :: "nat \<Rightarrow> bytes list \<Rightarrow> nat list" where
  "running_totals downloaded [] = []"
| "running_totals downloaded (chunk # chunks) =
     (if chunk \<noteq> [] then (downloaded + length chunk) # running_totals (downloaded + length chunk) chunks
      else running_totals downloaded chunks)"

text \<open>Lines 92 to 99: the \<open>with open(filepath, 'wb')\<close> block.\<close>

definition save_body :: "pystr \<Rightarrow> int \<Rightarrow> response \<Rightarrow> world \<Rightarrow> exn option \<times> world" where
  "save_body filepath total_size resp w =
     (case open_error w filepath of
        Some msg \<Rightarrow> (Some (IOError msg), w)
      | None \<Rightarrow>
          let w1 = w\<lparr>files := open_wb (files w) filepath\<rparr>;
              w2 = write_chunks filepath total_size (iter_content resp 8192) 0 w1
          in (body_error resp, w2))"

text \<open>
  Lines 67 to 73: the check of the content type; \<open>Inr False\<close> stands for the
  \<open>return None\<close> of line 73.
\<close>

definition confirm :: "pylib \<Rightarrow> pystr \<Rightarrow> world \<Rightarrow> (exn + bool) \<times> world" where
  "confirm lib content_type w =
     (if \<not> startswith content_type (lit ''image/'') then
        let w1 = print (lit ''Warning: Content-Type is '' @ [39] @ content_type @ [39]
                        @ lit '' - may not be an image'') w
        in case py_input (lit ''Do you want to continue downloading? (y/n): '') w1 of
             (Inl e, w2) \<Rightarrow> (Inl e, w2)
           | (Inr answer, w2) \<Rightarrow>
               if py_lower lib answer \<noteq> lit ''y''
               then (Inr False, print (lit ''Download cancelled by user.'') w2)
               else (Inr True, w2)
      else (Inr True, w))"

text \<open>Lines 75 to 105.\<close>

definition store :: "pylib \<Rightarrow> pystr \<Rightarrow> pystr \<Rightarrow> pystr \<Rightarrow> response \<Rightarrow> world
    \<Rightarrow> (exn + pystr option) \<times> world" where
  "store lib url download_dir content_type resp w =
     (case get_valid_filename lib (clock w) url content_type of
        Inl e \<Rightarrow> (Inl e, w)
      | Inr filename \<Rightarrow>
          let filepath = free_path (files w) download_dir filename;
              w1 = print (lit ''Downloading to: '' @ filepath) w
          in case (case content_length_header resp of
                     None \<Rightarrow> Inr 0 | Some v \<Rightarrow> int_of_str lib v) of
               Inl msg \<Rightarrow> (Inl (Exception msg), w1)
             | Inr total_size \<Rightarrow>
                 (case save_body filepath total_size resp w1 of
                    (Some e, w2) \<Rightarrow> (Inl e, w2)
                  | (None, w2) \<Rightarrow>
                      let w3 = print ([10] @ lit ''Download completed successfully!'') w2;
                          w4 = print (lit ''Saved as: '' @ basename filepath) w3
                      in case map_of (files w4) filepath of
                           Some (File content) \<Rightarrow>
                             (Inr (Some filepath),
                              w4\<lparr>stdout := stdout w4 @ [FileSize (length content)]\<rparr>)
                         | _ \<Rightarrow> (Inl (IOError (lit ''No such file or directory'')), w4)))"

text \<open>Lines 53 to 105: the body of the \<open>try\<close>.\<close>

definition download_try :: "pylib \<Rightarrow> pystr \<Rightarrow> pystr \<Rightarrow> world \<Rightarrow> (exn + pystr option) \<times> world" where
  "download_try lib url download_dir w =
     (let w1 = print (lit ''Connecting to: '' @ url) w;
          w2 = w1\<lparr>requested := requested w1 @ [url]\<rparr>
      in case http w2 url of
           Inl e \<Rightarrow> (Inl e, w2)
         | Inr resp \<Rightarrow>
             (case status_error resp of
                Some msg \<Rightarrow> (Inl (HTTPError msg), w2)
              | None \<Rightarrow>
                  let content_type = py_lower lib
                        (case content_type_header resp of None \<Rightarrow> [] | Some v \<Rightarrow> v)
                  in case confirm lib content_type w2 of
                       (Inl e, w3) \<Rightarrow> (Inl e, w3)
                     | (Inr False, w3) \<Rightarrow> (Inr None, w3)
                     | (Inr True, w3) \<Rightarrow> store lib url download_dir content_type resp w3))"

text \<open>Lines 107 to 122: the handlers, and the function as a whole.\<close>

definition handler_message :: "exn \<Rightarrow> pystr" where
  "handler_message e =
     (case e of
        Timeout \<Rightarrow> lit ''Error: Connection timed out. The server took too long to respond.''
      | ConnectionError \<Rightarrow>
          lit ''Error: Connection failed. Check your internet connection or the URL.''
      | HTTPError msg \<Rightarrow> lit ''Error: HTTP error occurred - '' @ msg
      | TooManyRedirects \<Rightarrow> lit ''Error: Too many redirects. The URL might be broken.''
      | RequestException msg \<Rightarrow> lit ''Error: Failed to download image - '' @ msg
      | IOError msg \<Rightarrow> lit ''Error: Failed to save file - '' @ msg
      | Exception msg \<Rightarrow> lit ''Unexpected error: '' @ msg)"

definition download_image :: "pylib \<Rightarrow> pystr \<Rightarrow> pystr \<Rightarrow> world \<Rightarrow> pystr option \<times> world" where
  "download_image lib url download_dir w =
     (case download_try lib url download_dir w of
        (Inr result, w') \<Rightarrow> (result, w')
      | (Inl e, w') \<Rightarrow> (None, print (handler_message e) w'))"

subsection \<open>\<open>create_directory\<close> and \<open>main\<close>\<close>

text \<open>
  \<open>os.makedirs(name, exist_ok=True)\<close>: the path and every prefix of it that ends before a
  slash become directories, unless one of them is a file.
\<close>

definition dir_chain :: "pystr \<Rightarrow> pystr list" where
  "dir_chain name =
     filter (\<lambda>d. d \<noteq> [] \<and> \<not> list_all (\<lambda>c. c = slash) d)
       (map (\<lambda>i. take i name) (filter (\<lambda>i. name ! i = slash) [0..<length name]) @ [name])"

definition is_file :: "filesystem \<Rightarrow> pystr \<Rightarrow> bool" where
  "is_file fs p \<longleftrightarrow> (case map_of fs p of Some (File c) \<Rightarrow> True | _ \<Rightarrow> False)"

definition makedirs :: "filesystem \<Rightarrow> pystr \<Rightarrow> filesystem" where
  "makedirs fs name =
     fs @ map (\<lambda>d. (d, Directory)) (filter (\<lambda>d. map_of fs d = None) (remdups (dir_chain name)))"

definition create_directory :: "pystr \<Rightarrow> world \<Rightarrow> bool \<times> world" where
  "create_directory directory_name w =
     (case (if directory_name = [] then Some (lit ''No such file or directory'')
            else if list_ex (is_file (files w)) (dir_chain directory_name)
            then Some (lit ''File exists'')
            else mkdir_fault w directory_name) of
        None \<Rightarrow>
          (True, print (lit ''Directory '' @ [39] @ directory_name @ [39] @ lit '' is ready.'')
                   (w\<lparr>files := makedirs (files w) directory_name\<rparr>))
      | Some msg \<Rightarrow> (False, print (lit ''Error creating directory: '' @ msg) w))"

text \<open>
  Lines 141 to 164: one round of the loop of \<open>main\<close>, ending in \<open>continue\<close> (or the end of
  the body), in \<open>break\<close>, or in the exception that \<open>input\<close> raised.
\<close>

datatype step = Continue | Break | Raise exn

definition loop_body :: "pylib \<Rightarrow> pystr \<Rightarrow> world \<Rightarrow> step \<times> world" where
  "loop_body lib download_dir w =
     (let w1 = print ([10] @ replicate 30 (ch CHR ''-'')) w
      in case py_input (lit ''Enter the image URL (or '' @ [39] @ lit ''quit'' @ [39]
                        @ lit '' to exit): '') w1 of
           (Inl e, w2) \<Rightarrow> (Raise e, w2)
         | (Inr line, w2) \<Rightarrow>
             let url = strip line
             in if py_lower lib url \<in> set [lit ''quit'', lit ''exit'', lit ''q'']
                then (Break, print (lit ''Goodbye!'') w2)
                else if url = [] then (Continue, print (lit ''Please enter a valid URL.'') w2)
                else
                  let (downloaded_file, w3) = download_image lib url download_dir w2;
                      w4 = (if downloaded_file \<noteq> None \<and> downloaded_file \<noteq> Some []
                            then print ([10003] @ lit '' Download successful!'') w3
                            else print ([10007] @ lit '' Download failed.'') w3)
                  in case py_input ([10] @ lit ''Download another image? (y/n): '') w4 of
                       (Inl e, w5) \<Rightarrow> (Raise e, w5)
                     | (Inr answer, w5) \<Rightarrow>
                         if py_lower lib answer \<noteq> lit ''y''
                         then (Break, print (lit ''Goodbye!'') w5)
                         else (Continue, w5))"

text \<open>A round that continues has read a line, so the loop ends when the input does.\<close>

lemma stdin_print [simp]: "stdin (print s w) = stdin w"
  by (simp add: print_def)

lemma stdin_py_input: "py_input p w = (r, w') \<Longrightarrow> length (stdin w') \<le> length (stdin w)"
  by (auto simp: py_input_def split: list.splits)

lemma stdin_py_input_Inr:
  "py_input p w = (Inr a, w') \<Longrightarrow> length (stdin w') < length (stdin w)"
  by (auto simp: py_input_def split: list.splits)

lemma stdin_write_chunks [simp]: "stdin (write_chunks p t cs d w) = stdin w"
  by (induction cs arbitrary: d w) (simp_all add: Let_def)

lemma stdin_save_body: "save_body p t resp w = (r, w') \<Longrightarrow> stdin w' = stdin w"
  by (auto simp: save_body_def Let_def split: option.splits)

lemma stdin_confirm: "confirm lib ct w = (r, w') \<Longrightarrow> length (stdin w') \<le> length (stdin w)"
  by (auto simp: confirm_def Let_def split: if_splits prod.splits sum.splits
           dest!: stdin_py_input)

lemma stdin_store: "store lib url d ct resp w = (r, w') \<Longrightarrow> stdin w' = stdin w"
  by (auto simp: store_def Let_def split: sum.splits option.splits prod.splits node.splits
           dest!: stdin_save_body)

lemma stdin_download_try:
  "download_try lib url d w = (r, w') \<Longrightarrow> length (stdin w') \<le> length (stdin w)"
  by (auto simp: download_try_def Let_def split: sum.splits option.splits prod.splits bool.splits
           dest!: stdin_store stdin_confirm)

lemma stdin_download_image:
  "download_image lib url d w = (r, w') \<Longrightarrow> length (stdin w') \<le> length (stdin w)"
  by (auto simp: download_image_def split: sum.splits prod.splits dest!: stdin_download_try)

lemma loop_body_consumes:
  assumes "loop_body lib d w = (Continue, w')"
  shows "length (stdin w') < length (stdin w)"
proof -
  let ?w1 = "print ([10] @ replicate 30 (ch CHR ''-'')) w"
  let ?p = "lit ''Enter the image URL (or '' @ [39] @ lit ''quit'' @ [39] @ lit '' to exit): ''"
  obtain r w2 where i: "py_input ?p ?w1 = (r, w2)"
    by (cases "py_input ?p ?w1")
  with assms obtain line where r: "r = Inr line"
    by (cases r) (auto simp: loop_body_def Let_def)
  from i r have l2: "length (stdin w2) < length (stdin w)"
    using stdin_py_input_Inr [of ?p ?w1 line w2] by simp
  show ?thesis
  proof (cases "strip line = []")
    case True
    with assms i r l2 show ?thesis
      by (auto simp: loop_body_def Let_def split: if_splits)
  next
    case False
    obtain f w3 where dl: "download_image lib (strip line) d w2 = (f, w3)"
      by (cases "download_image lib (strip line) d w2")
    from stdin_download_image [OF dl] have l3: "length (stdin w3) \<le> length (stdin w2)" .
    from assms i r False dl obtain m a where
      "py_input ([10] @ lit ''Download another image? (y/n): '') (print m w3) = (Inr a, w')"
      by (auto simp: loop_body_def Let_def split: if_splits sum.splits prod.splits)
    from stdin_py_input_Inr [OF this] l3 l2 show ?thesis
      by simp
  qed
qed

function main_loop :: "pylib \<Rightarrow> pystr \<Rightarrow> world \<Rightarrow> exn option \<times> world" where
  "main_loop lib download_dir w =
     (case loop_body lib download_dir w of
        (Continue, w') \<Rightarrow> main_loop lib download_dir w'
      | (Break, w') \<Rightarrow> (None, w')
      | (Raise e, w') \<Rightarrow> (Some e, w'))"
  by pat_completeness auto
termination
  by (relation "measure (\<lambda>(lib, download_dir, w). length (stdin w))")
     (auto dest: loop_body_consumes [OF sym])

declare main_loop.simps [simp del]

definition main :: "pylib \<Rightarrow> world \<Rightarrow> exn option \<times> world" where
  "main lib w =
     (let w = print (replicate 50 (ch CHR ''='')) w;
          w = print (lit ''           IMAGE DOWNLOADER'') w;
          w = print (replicate 50 (ch CHR ''='')) w;
          w = print (lit ''This script downloads images from URLs and saves them to ''
                     @ [39] @ lit ''Fetched_Images'' @ [39] @ lit '' directory'') w;
          w = print [] w;
          download_dir = lit ''Fetched_Images''
      in case create_directory download_dir w of
           (False, w1) \<Rightarrow> (None, print (lit ''Cannot proceed without download directory.'') w1)
         | (True, w1) \<Rightarrow> main_loop lib download_dir w1)"

section \<open>Specification-side definitions\<close>

text \<open>The set \<open>[A-Za-z0-9_.-]\<close> that the specification names for the sanitization step.\<close>

definition spec_safe_char :: "nat \<Rightarrow> bool" where
  "spec_safe_char c \<longleftrightarrow>
     ascii_alnum c \<or> c = ch CHR ''_'' \<or> c = ch CHR ''.'' \<or> c = ch CHR ''-''"

text \<open>
  The extension as the specification words it: the subtype, that is the text after the
  first \<open>/\<close>, with any \<open>;...\<close> suffix removed.
\<close>

definition spec_subtype :: "pystr \<Rightarrow> pystr" where
  "spec_subtype content_type =
     before (ch CHR '';'') (drop 1 (dropWhile (\<lambda>c. c \<noteq> slash) content_type))"

section \<open>A concrete runtime for evaluation\<close>

text \<open>
  \<open>demo_lib\<close> fixes the library parameters for concrete runs: the Unicode tables are exact on Latin-1 and cut off
  above it, every host part that passes the bracket test is accepted, and \<open>int\<close> reads
  plain ASCII digits.
\<close>

definition latin1_alnum :: "nat \<Rightarrow> bool" where
  "latin1_alnum c \<longleftrightarrow>
     c = 170 \<or> c = 178 \<or> c = 179 \<or> c = 181 \<or> c = 185 \<or> c = 186 \<or>
     (188 \<le> c \<and> c \<le> 190) \<or> (192 \<le> c \<and> c \<le> 214) \<or> (216 \<le> c \<and> c \<le> 246) \<or>
     (248 \<le> c \<and> c \<le> 255)"

definition latin1_lower :: "nat \<Rightarrow> nat" where
  "latin1_lower c =
     (if (65 \<le> c \<and> c \<le> 90) \<or> (192 \<le> c \<and> c \<le> 222 \<and> c \<noteq> 215) then c + 32 else c)"

definition ascii_int :: "pystr \<Rightarrow> pystr + int" where
  "ascii_int s =
     (if s \<noteq> [] \<and> list_all (\<lambda>c. 48 \<le> c \<and> c \<le> 57) s then Inr (int (nat_of_digits s))
      else Inl (lit ''invalid literal for int() with base 10''))"

definition demo_lib :: pylib where
  "demo_lib = \<lparr>uni_alnum = latin1_alnum, uni_lower = map latin1_lower,
                netloc_error = (\<lambda>n. None), int_of_str = ascii_int\<rparr>"

text \<open>
  A stream that cuts a body into pieces of exactly the requested size, the last one
  possibly shorter; a response with a content type and such a stream and nothing else; a
  network that times out; a network that serves one response for every URL; and a world
  with no faults and nothing printed yet.
\<close>

function slices :: "nat \<Rightarrow> bytes \<Rightarrow> bytes list" where
  "slices chunk_size data =
     (if chunk_size = 0 \<or> data = [] then []
      else take chunk_size data # slices chunk_size (drop chunk_size data))"
  by pat_completeness auto
termination
  by (relation "measure (\<lambda>(chunk_size, data). length data)") auto

declare slices.simps [simp del]

definition demo_stream :: "bytes \<Rightarrow> nat \<Rightarrow> bytes list" where
  "demo_stream data chunk_size = slices chunk_size data"

definition demo_response :: "pystr \<Rightarrow> bytes \<Rightarrow> response" where
  "demo_response content_type data =
     \<lparr>status_error = None, content_type_header = Some content_type,
      content_length_header = None, iter_content = demo_stream data, body_error = None\<rparr>"

definition net_timeout :: "pystr \<Rightarrow> exn + response" where
  "net_timeout url = Inl Timeout"

definition net_serving :: "response \<Rightarrow> pystr \<Rightarrow> exn + response" where
  "net_serving resp url = Inr resp"

definition no_fault :: "pystr \<Rightarrow> pystr option" where
  "no_fault p = None"

definition demo_world :: "(pystr \<Rightarrow> exn + response) \<Rightarrow> pystr list \<Rightarrow> filesystem \<Rightarrow> world" where
  "demo_world net lines fs =
     \<lparr>files = fs, stdin = lines, stdout = [], requested = [], http = net,
      clock = lit ''20260101_000000'', open_fault = no_fault, mkdir_fault = no_fault\<rparr>"

section \<open>Properties\<close>

lemmas world_eval = demo_world_def demo_response_def demo_stream_def net_timeout_def net_serving_def
  no_fault_def

lemmas resolver_eval =
  get_valid_filename_def unsanitized_filename_def urlparse_path_def split_scheme_def
  before_def after_last_def upto_last_def lit_def ch_def slash_def dot_def startswith_def
  netloc_delim_def splitparams_def uses_params_def rejected_def basename_def
  fallback_extension_def strip_def py_isspace_def re_sub_unsafe_def kept_char_def word_char_def
  ascii_alnum_def ascii_alpha_def scheme_char_def ascii_lower_def demo_lib_def latin1_alnum_def
  spec_safe_char_def spec_subtype_def Let_def

subsection \<open>Candidate paths\<close>

lemma suffixed_chars: "set (suffixed f k) \<subseteq> set f \<union> {ch CHR ''_''} \<union> {48..57}"
proof -
  obtain stem ext where se: "splitext f = (stem, ext)"
    by (cases "splitext f")
  with set_splitext [of f] have "set stem \<union> set ext = set f"
    by simp
  with se set_str_nat [of k] show ?thesis
    by (auto simp: suffixed_def lit_def ch_def)
qed

lemma suffixed_no_slash: "slash \<notin> set f \<Longrightarrow> slash \<notin> set (suffixed f k)"
  using suffixed_chars [of f k] by (auto simp: slash_def ch_def)

lemma join_prefix:
  assumes "slash \<notin> set f"
  shows "\<exists>P. (P = [] \<or> last P = slash) \<and> (\<forall>g. slash \<notin> set g \<longrightarrow> join d g = P @ g)"
proof -
  have ns: "\<not> startswith g [slash]" if "slash \<notin> set g" for g
    using that by (cases g) (auto simp: startswith_def)
  show ?thesis
  proof (cases "d = [] \<or> last d = slash")
    case True
    then show ?thesis
      by (intro exI [of _ d]) (auto simp: join_def ns)
  next
    case False
    then show ?thesis
      by (intro exI [of _ "d @ [slash]"]) (auto simp: join_def ns)
  qed
qed

lemma suffixed_join:
  assumes "slash \<notin> set f"
  shows "suffixed (join d f) k = join d (suffixed f k)"
proof -
  from join_prefix [OF assms, of d] obtain P
    where P: "P = [] \<or> last P = slash" "\<And>g. slash \<notin> set g \<Longrightarrow> join d g = P @ g"
    by blast
  have "suffixed (P @ f) k = P @ suffixed f k"
    using splitext_prefix [OF assms P(1)] by (simp add: suffixed_def split: prod.splits)
  then show ?thesis
    using P(2) [OF assms] P(2) [OF suffixed_no_slash [OF assms, of k]] by simp
qed

lemma numbered_join:
  "slash \<notin> set f \<Longrightarrow> join d (numbered f k) = (if k = 0 then join d f else suffixed (join d f) k)"
  by (simp add: numbered_def suffixed_join)

subsection \<open>The path of a URL holds no question mark\<close>

lemma urlparse_path_no_query:
  assumes "urlparse_path lib url = Inr path"
  shows "ch CHR ''?'' \<notin> set path"
proof -
  obtain u where "path = before (ch CHR ''?'') u \<or> path = splitparams (before (ch CHR ''?'') u)"
    using assms
    by (auto simp: urlparse_path_def Let_def split: prod.splits if_splits option.splits)
  then show ?thesis
    using before_excludes [of "ch CHR ''?''" u] set_splitparams [of "before (ch CHR ''?'') u"]
    by auto
qed

lemma basename_no_query:
  "urlparse_path lib url = Inr path \<Longrightarrow> ch CHR ''?'' \<notin> set (basename path)"
  using urlparse_path_no_query set_after_last [of slash path]
  by (auto simp: basename_def)

subsection \<open>Sanitization\<close>

lemma kept_underscore: "kept_char lib (ch CHR ''_'')"
  by (simp add: kept_char_def)

lemma kept_char_cases:
  "kept_char lib c \<longleftrightarrow> (if c < 128 then spec_safe_char c else uni_alnum lib c)"
  by (auto simp: kept_char_def word_char_def spec_safe_char_def ch_def)

lemma re_sub_unsafe_kept: "c \<in> set (re_sub_unsafe lib s) \<Longrightarrow> kept_char lib c"
  by (auto simp: re_sub_unsafe_def kept_underscore)

text \<open>
  C9. The character replacement of the sanitization step is idempotent: applied twice it
  gives the same string as applied once.
\<close>

theorem re_sub_unsafe_idempotent:
  "re_sub_unsafe lib (re_sub_unsafe lib s) = re_sub_unsafe lib s"
  by (simp add: re_sub_unsafe_def kept_underscore)

subsection \<open>Filename Resolver\<close>

text \<open>
  C1, as amended. The sanitization step replaces every code point that is neither a word
  character of \<open>\w\<close> (alphanumeric in Unicode, or \<open>_\<close>) nor \<open>-\<close> nor \<open>.\<close> by \<open>_\<close>. So
  every ASCII character of the returned filename is in \<open>[A-Za-z0-9_.-]\<close>, and every other
  character of it is a Unicode alphanumeric.
\<close>

theorem sanitized_filename_chars:
  assumes "get_valid_filename lib timestamp url content_type = Inr f"
  shows "\<exists>g. unsanitized_filename lib timestamp url content_type = Inr g \<and>
             f = map (\<lambda>c. if kept_char lib c then c else ch CHR ''_'') g \<and>
             (\<forall>c \<in> set f. if c < 128 then spec_safe_char c else uni_alnum lib c)"
proof -
  from assms obtain g where g: "unsanitized_filename lib timestamp url content_type = Inr g"
    and f: "f = re_sub_unsafe lib g"
    by (auto simp: get_valid_filename_def split: sum.splits)
  have "\<forall>c \<in> set f. if c < 128 then spec_safe_char c else uni_alnum lib c"
    using re_sub_unsafe_kept [of _ lib g] f by (auto simp: kept_char_cases)
  with g f show ?thesis
    by (simp add: re_sub_unsafe_def)
qed

theorem sanitized_filename_chars_witness:
  "get_valid_filename demo_lib (lit ''20260101_000000'') (lit ''https://example.com/my cat$.jpg'')
      (lit ''image/jpeg'') = Inr (lit ''my_cat_.jpg'') \<and>
   (\<exists>g. unsanitized_filename demo_lib (lit ''20260101_000000'')
          (lit ''https://example.com/my cat$.jpg'') (lit ''image/jpeg'') = Inr g \<and>
        lit ''my_cat_.jpg'' = map (\<lambda>c. if kept_char demo_lib c then c else ch CHR ''_'') g \<and>
        (\<forall>c \<in> set (lit ''my_cat_.jpg'').
           if c < 128 then spec_safe_char c else uni_alnum demo_lib c))"
proof -
  have h: "get_valid_filename demo_lib (lit ''20260101_000000'')
      (lit ''https://example.com/my cat$.jpg'') (lit ''image/jpeg'') = Inr (lit ''my_cat_.jpg'')"
    by (simp add: resolver_eval)
  show ?thesis
    using h sanitized_filename_chars [OF h] by blast
qed

text \<open>
  C1 as stated fails: the letter U+00E9 of a URL stays in the returned filename, and it is
  outside \<open>[A-Za-z0-9_.-]\<close>.
\<close>

theorem unicode_letter_kept:
  "get_valid_filename demo_lib (lit ''20260101_000000'')
      (lit ''https://example.com/caf'' @ [233] @ lit ''.jpg'') (lit ''image/jpeg'')
     = Inr (lit ''caf'' @ [233] @ lit ''.jpg'')
   \<and> \<not> spec_safe_char 233"
  by (simp add: resolver_eval)

text \<open>
  C7. When the last segment of the URL's path is non-empty, holds a period and has at most
  100 characters, the filename before sanitization is that segment with any \<open>?...\<close> suffix
  stripped; the timestamp branch is not taken.
\<close>

theorem url_segment_kept:
  assumes "urlparse_path lib url = Inr path"
    and "basename path \<noteq> []" and "dot \<in> set (basename path)"
    and "length (basename path) \<le> 100"
  shows "unsanitized_filename lib timestamp url content_type
           = Inr (before (ch CHR ''?'') (basename path))"
  using assms by (simp add: unsanitized_filename_def rejected_def)

theorem url_segment_kept_witness:
  "urlparse_path demo_lib (lit ''https://example.com/pics/cat.jpg'') = Inr (lit ''/pics/cat.jpg'')
   \<and> basename (lit ''/pics/cat.jpg'') \<noteq> []
   \<and> dot \<in> set (basename (lit ''/pics/cat.jpg''))
   \<and> length (basename (lit ''/pics/cat.jpg'')) \<le> 100
   \<and> unsanitized_filename demo_lib (lit ''20260101_000000'')
         (lit ''https://example.com/pics/cat.jpg'') (lit ''image/jpeg'') = Inr (lit ''cat.jpg'')"
proof -
  have p: "urlparse_path demo_lib (lit ''https://example.com/pics/cat.jpg'')
             = Inr (lit ''/pics/cat.jpg'')"
    by (simp add: resolver_eval)
  have a: "basename (lit ''/pics/cat.jpg'') \<noteq> []"
    and b: "dot \<in> set (basename (lit ''/pics/cat.jpg''))"
    and c: "length (basename (lit ''/pics/cat.jpg'')) \<le> 100"
    by (simp_all add: resolver_eval)
  have d: "before (ch CHR ''?'') (basename (lit ''/pics/cat.jpg'')) = lit ''cat.jpg''"
    by (simp add: resolver_eval)
  show ?thesis
    using url_segment_kept [OF p a b c, of "lit ''20260101_000000''" "lit ''image/jpeg''"] p a b c d
    by simp
qed

text \<open>
  C8, as amended. For every URL that \<open>urlparse\<close> accepts and every content type, empty ones
  included, the Filename Resolver returns a filename, and it is not empty.
\<close>

theorem resolver_nonempty:
  assumes "urlparse_path lib url = Inr path"
  shows "\<exists>f. get_valid_filename lib timestamp url content_type = Inr f \<and> f \<noteq> []"
proof (cases "rejected (basename path)")
  case True
  have "before (ch CHR ''?'')
          (lit ''image_'' @ timestamp @ lit ''.'' @ fallback_extension content_type) \<noteq> []"
    by (simp add: before_def lit_def ch_def)
  with True assms show ?thesis
    by (simp add: get_valid_filename_def unsanitized_filename_def re_sub_unsafe_def)
next
  case False
  then have "before (ch CHR ''?'') (basename path) \<noteq> []"
    using basename_no_query [OF assms] by (simp add: before_absent rejected_def)
  with False assms show ?thesis
    by (simp add: get_valid_filename_def unsanitized_filename_def re_sub_unsafe_def)
qed

theorem resolver_nonempty_witness:
  "urlparse_path demo_lib (lit ''https://example.com/render?id=9'') = Inr (lit ''/render'')
   \<and> (\<exists>f. get_valid_filename demo_lib (lit ''20260101_000000'')
             (lit ''https://example.com/render?id=9'') [] = Inr f \<and> f \<noteq> [])"
proof -
  have p: "urlparse_path demo_lib (lit ''https://example.com/render?id=9'') = Inr (lit ''/render'')"
    by (simp add: resolver_eval)
  show ?thesis
    using p resolver_nonempty [OF p] by blast
qed

text \<open>
  C8 as stated fails: for a URL whose host part opens a bracket and never closes it,
  \<open>urlparse\<close> raises \<open>ValueError\<close> and the Filename Resolver returns nothing.
\<close>

theorem invalid_host_raises:
  "get_valid_filename demo_lib (lit ''20260101_000000'') (lit ''http://['') (lit ''image/png'')
     = Inl (Exception (lit ''Invalid IPv6 URL''))"
  by (simp add: resolver_eval)

subsection \<open>Collision resolution\<close>

lemma probe_result:
  "\<not> path_exists fs (probe fs orig fp c) \<and>
   (if path_exists fs fp
    then \<exists>k\<ge>c. probe fs orig fp c = suffixed orig k \<and>
           (\<forall>j. c \<le> j \<and> j < k \<longrightarrow> path_exists fs (suffixed orig j))
    else probe fs orig fp c = fp)"
proof (induction fs orig fp c rule: probe.induct)
  case (1 fs orig fp c)
  show ?case
  proof (cases "path_exists fs fp")
    case False
    then show ?thesis
      by (subst (1 2) probe.simps) simp
  next
    case True
    note ih = 1 [OF True]
    have eq: "probe fs orig fp c = probe fs orig (suffixed orig c) (c + 1)"
      using True by (subst probe.simps) simp
    show ?thesis
    proof (cases "path_exists fs (suffixed orig c)")
      case False
      with ih have "probe fs orig (suffixed orig c) (c + 1) = suffixed orig c"
        and "\<not> path_exists fs (probe fs orig (suffixed orig c) (c + 1))"
        by simp_all
      with True eq show ?thesis
        by (auto intro!: exI [of _ c])
    next
      case ex: True
      with ih obtain k where k: "c + 1 \<le> k"
        "probe fs orig (suffixed orig c) (c + 1) = suffixed orig k"
        "\<forall>j. c + 1 \<le> j \<and> j < k \<longrightarrow> path_exists fs (suffixed orig j)"
        by auto
      have "\<forall>j. c \<le> j \<and> j < k \<longrightarrow> path_exists fs (suffixed orig j)"
      proof (intro allI impI)
        fix j assume "c \<le> j \<and> j < k"
        then have "j = c \<or> (c + 1 \<le> j \<and> j < k)" by auto
        with ex k(3) show "path_exists fs (suffixed orig j)" by auto
      qed
      moreover have "c \<le> k" using k(1) by simp
      ultimately show ?thesis
        using True eq k(2) ih by auto
    qed
  qed
qed

lemma first_free:
  assumes "slash \<notin> set filename"
  shows "\<exists>k. free_path fs download_dir filename = join download_dir (numbered filename k) \<and>
             \<not> path_exists fs (join download_dir (numbered filename k)) \<and>
             (\<forall>j<k. path_exists fs (join download_dir (numbered filename j)))"
proof -
  let ?p = "join download_dir filename"
  note r = probe_result [of fs ?p ?p 1]
  show ?thesis
  proof (cases "path_exists fs ?p")
    case False
    with r have "free_path fs download_dir filename = ?p"
      by (simp add: free_path_def)
    with False show ?thesis
      by (intro exI [of _ 0]) (simp add: numbered_def)
  next
    case True
    with r obtain k where k: "1 \<le> k" "probe fs ?p ?p 1 = suffixed ?p k"
      "\<forall>j. 1 \<le> j \<and> j < k \<longrightarrow> path_exists fs (suffixed ?p j)"
      by auto
    have "\<forall>j<k. path_exists fs (join download_dir (numbered filename j))"
    proof (intro allI impI)
      fix j assume "j < k"
      show "path_exists fs (join download_dir (numbered filename j))"
      proof (cases "j = 0")
        case True
        with \<open>path_exists fs ?p\<close> show ?thesis by (simp add: numbered_def)
      next
        case False
        with \<open>j < k\<close> k(3) have "path_exists fs (suffixed ?p j)" by simp
        with False show ?thesis by (simp add: numbered_join [OF assms])
      qed
    qed
    moreover have "free_path fs download_dir filename = join download_dir (numbered filename k)"
      using k(1,2) by (simp add: free_path_def numbered_join [OF assms])
    moreover have "\<not> path_exists fs (free_path fs download_dir filename)"
      unfolding free_path_def Let_def by (rule r [THEN conjunct1])
    ultimately show ?thesis
      by (intro exI [of _ k]) simp
  qed
qed

text \<open>
  C3, as amended. The chosen path is the first of \<open>name.ext\<close>, \<open>name_1.ext\<close>, \<open>name_2.ext\<close>,
  ... in the output directory that does not exist at the moment of the request: the suffix
  is the first available integer, starting at 1, inserted before the extension. A name
  that was freed is available again.
\<close>

theorem collision_first_free:
  assumes "slash \<notin> set filename"
  shows "\<exists>k. free_path fs download_dir filename = join download_dir (numbered filename k) \<and>
             \<not> path_exists fs (join download_dir (numbered filename k)) \<and>
             (\<forall>j<k. path_exists fs (join download_dir (numbered filename j)))"
  using assms by (rule first_free)

theorem collision_first_free_witness:
  "slash \<notin> set (lit ''cat.jpg'') \<and>
   free_path [(lit ''Fetched_Images/cat.jpg'', File []), (lit ''Fetched_Images/cat_1.jpg'', File [])]
     (lit ''Fetched_Images'') (lit ''cat.jpg'') = lit ''Fetched_Images/cat_2.jpg'' \<and>
   (\<exists>k. free_path [(lit ''Fetched_Images/cat.jpg'', File []), (lit ''Fetched_Images/cat_1.jpg'', File [])]
          (lit ''Fetched_Images'') (lit ''cat.jpg'')
        = join (lit ''Fetched_Images'') (numbered (lit ''cat.jpg'') k) \<and>
      \<not> path_exists [(lit ''Fetched_Images/cat.jpg'', File []), (lit ''Fetched_Images/cat_1.jpg'', File [])]
          (join (lit ''Fetched_Images'') (numbered (lit ''cat.jpg'') k)) \<and>
      (\<forall>j<k. path_exists [(lit ''Fetched_Images/cat.jpg'', File []), (lit ''Fetched_Images/cat_1.jpg'', File [])]
          (join (lit ''Fetched_Images'') (numbered (lit ''cat.jpg'') j))))"
proof -
  have a: "slash \<notin> set (lit ''cat.jpg'')"
    by (simp add: lit_def slash_def ch_def)
  have b: "free_path [(lit ''Fetched_Images/cat.jpg'', File []), (lit ''Fetched_Images/cat_1.jpg'', File [])]
     (lit ''Fetched_Images'') (lit ''cat.jpg'') = lit ''Fetched_Images/cat_2.jpg''"
    by code_simp
  show ?thesis
    using a b collision_first_free [OF a] by blast
qed

text \<open>
  C3 as stated fails: with \<open>cat.jpg\<close> and \<open>cat_1.jpg\<close> present the request gets \<open>cat_2.jpg\<close>;
  once \<open>cat_1.jpg\<close> has been deleted, the next request gets \<open>cat_1.jpg\<close> again, a freed
  name and a suffix below the one handed out before.
\<close>

theorem freed_name_reused:
  "free_path [(lit ''Fetched_Images/cat.jpg'', File []), (lit ''Fetched_Images/cat_1.jpg'', File [])]
     (lit ''Fetched_Images'') (lit ''cat.jpg'') = lit ''Fetched_Images/cat_2.jpg'' \<and>
   free_path [(lit ''Fetched_Images/cat.jpg'', File []), (lit ''Fetched_Images/cat_2.jpg'', File [])]
     (lit ''Fetched_Images'') (lit ''cat.jpg'') = lit ''Fetched_Images/cat_1.jpg''"
  by code_simp

subsection \<open>Writing the body\<close>

lemma file_write_Nil [simp]: "file_write fs p [] = fs"
  by (induction fs) (auto simp: file_write_def split: node.splits)

lemma file_write_twice: "file_write (file_write fs p a) p b = file_write fs p (a @ b)"
  by (induction fs) (auto simp: file_write_def split: node.splits)

lemma files_write_chunks:
  "files (write_chunks p t cs d w) = file_write (files w) p (concat cs)"
  by (induction cs arbitrary: d w) (simp_all add: Let_def file_write_twice)

lemma stdout_write_chunks:
  "stdout (write_chunks p t cs d w)
     = stdout w @ (if t > 0 then map (\<lambda>n. Progress n t) (running_totals d cs) else [])"
  by (induction cs arbitrary: d w) (simp_all add: Let_def)

lemma file_write_open_wb:
  "file_write (open_wb fs p) p c = (p, File c) # filter (\<lambda>(q, n). q \<noteq> p) fs"
proof -
  have "file_write (filter (\<lambda>(q, n). q \<noteq> p) fs) p c = filter (\<lambda>(q, n). q \<noteq> p) fs"
    by (induction fs) (auto simp: file_write_def split: node.splits)
  then show ?thesis
    by (simp add: file_write_def open_wb_def)
qed

lemma save_body_opened:
  assumes "open_error w p = None"
  shows "fst (save_body p t resp w) = body_error resp"
    and "files (snd (save_body p t resp w))
           = (p, File (concat (iter_content resp 8192))) # filter (\<lambda>(q, n). q \<noteq> p) (files w)"
    and "stdout (snd (save_body p t resp w))
           = stdout w @ (if t > 0 then map (\<lambda>n. Progress n t)
                                          (running_totals 0 (iter_content resp 8192)) else [])"
  using assms
  by (simp_all add: save_body_def Let_def files_write_chunks file_write_open_wb
        stdout_write_chunks)

lemma save_body_refused:
  assumes "open_error w p = Some msg"
  shows "save_body p t resp w = (Some (IOError msg), w)"
  using assms by (simp add: save_body_def)

text \<open>
  C2, as amended. The Fetcher opens the target path with mode \<open>wb\<close>, which creates the file
  or truncates an existing one (it does not fail when the file exists). It asks the
  response for chunks of size 8192 and writes every non-empty chunk it gets, in order: the
  file ends up holding their concatenation, and with a declared content length the progress
  line is printed once per chunk, with the running total of the chunk lengths.
\<close>

theorem body_saved_in_chunks:
  assumes "open_error w filepath = None"
  shows "fst (save_body filepath total_size resp w) = body_error resp \<and>
         files (snd (save_body filepath total_size resp w))
           = (filepath, File (concat (iter_content resp 8192)))
             # filter (\<lambda>(q, n). q \<noteq> filepath) (files w) \<and>
         stdout (snd (save_body filepath total_size resp w))
           = stdout w @ (if total_size > 0
                         then map (\<lambda>n. Progress n total_size)
                                (running_totals 0 (iter_content resp 8192))
                         else [])"
  using save_body_opened [OF assms] by simp

lemma slices_two: "slices 8192 (replicate 8193 x) = [replicate 8192 x, [x]]"
proof -
  have a: "slices 8192 (replicate 8193 x) = replicate 8192 x # slices 8192 (replicate 1 x)"
    by (subst slices.simps) (simp)
  have b: "slices 8192 (replicate 1 x) = [[x]]"
    by (subst slices.simps, subst slices.simps) simp
  show ?thesis
    unfolding a b by (simp)
qed

theorem body_saved_in_chunks_witness:
  "open_error (demo_world net_timeout [] [(lit ''Fetched_Images'', Directory)]) (lit ''Fetched_Images/cat.jpg'') = None \<and>
   iter_content (demo_response (lit ''image/jpeg'') (replicate 8193 7)) 8192 = [replicate 8192 7, [7]] \<and>
   files (snd (save_body (lit ''Fetched_Images/cat.jpg'') 8193 (demo_response (lit ''image/jpeg'') (replicate 8193 7))
      (demo_world net_timeout [] [(lit ''Fetched_Images'', Directory)])))
     = [(lit ''Fetched_Images/cat.jpg'', File (replicate 8192 7 @ [7])), (lit ''Fetched_Images'', Directory)] \<and>
   stdout (snd (save_body (lit ''Fetched_Images/cat.jpg'') 8193 (demo_response (lit ''image/jpeg'') (replicate 8193 7))
      (demo_world net_timeout [] [(lit ''Fetched_Images'', Directory)])))
     = [Progress 8192 8193, Progress 8193 8193]"
proof -
  have a: "open_error (demo_world net_timeout [] [(lit ''Fetched_Images'', Directory)]) (lit ''Fetched_Images/cat.jpg'') = None"
    by code_simp
  have b: "iter_content (demo_response (lit ''image/jpeg'') (replicate 8193 7)) 8192 = [replicate 8192 7, [7]]"
    by (simp add: world_eval slices_two)
  have c: "files (demo_world net_timeout [] [(lit ''Fetched_Images'', Directory)]) = [(lit ''Fetched_Images'', Directory)]"
    and d: "stdout (demo_world net_timeout [] [(lit ''Fetched_Images'', Directory)]) = []"
    by (simp_all add: world_eval)
  have e: "lit ''Fetched_Images'' \<noteq> lit ''Fetched_Images/cat.jpg''"
    by (simp add: lit_def)
  show ?thesis
    using a b body_saved_in_chunks [OF a, of 8193 "demo_response (lit ''image/jpeg'') (replicate 8193 7)"]
    by (simp add: c d e)
qed

text \<open>
  C2 as stated fails: the open mode is not exclusive-create. Where the target already
  exists, the \<open>with\<close> block does not fail; it replaces the old content.
\<close>

theorem existing_file_overwritten:
  "fst (save_body (lit ''Fetched_Images/cat.jpg'') 0 (demo_response (lit ''image/jpeg'') [7, 7])
      (demo_world net_timeout [] [(lit ''Fetched_Images'', Directory), (lit ''Fetched_Images/cat.jpg'', File [5, 6])])) = None \<and>
   files (snd (save_body (lit ''Fetched_Images/cat.jpg'') 0 (demo_response (lit ''image/jpeg'') [7, 7])
      (demo_world net_timeout [] [(lit ''Fetched_Images'', Directory), (lit ''Fetched_Images/cat.jpg'', File [5, 6])])))
     = [(lit ''Fetched_Images/cat.jpg'', File [7, 7]), (lit ''Fetched_Images'', Directory)]"
proof -
  have a: "open_error (demo_world net_timeout [] [(lit ''Fetched_Images'', Directory), (lit ''Fetched_Images/cat.jpg'', File [5, 6])]) (lit ''Fetched_Images/cat.jpg'') = None"
    by code_simp
  have b: "iter_content (demo_response (lit ''image/jpeg'') [7, 7]) 8192 = [[7, 7]]"
    by (simp add: world_eval slices.simps)
  have e: "lit ''Fetched_Images'' \<noteq> lit ''Fetched_Images/cat.jpg''"
    by (simp add: lit_def)
  have f: "files (demo_world net_timeout [] [(lit ''Fetched_Images'', Directory), (lit ''Fetched_Images/cat.jpg'', File [5, 6])])
      = [(lit ''Fetched_Images'', Directory), (lit ''Fetched_Images/cat.jpg'', File [5, 6])]"
    and g: "body_error (demo_response (lit ''image/jpeg'') [7, 7]) = None"
    by (simp_all add: world_eval)
  show ?thesis
    using save_body_opened(1,2) [OF a, of 0 "demo_response (lit ''image/jpeg'') [7, 7]"] b
    by (simp add: e f g)
qed

subsection \<open>Declined downloads\<close>

text \<open>
  C5. When the content type of the response, compared in lower case as the source does,
  does not start with \<open>image/\<close>, and the user answers the confirmation prompt with
  anything other than \<open>y\<close> or \<open>Y\<close>, the Fetcher returns \<open>None\<close> and the files on disk are
  unchanged.
\<close>

theorem declined_download:
  assumes "http w url = Inr resp" and "status_error resp = None"
    and "\<not> startswith (py_lower lib (case content_type_header resp of None \<Rightarrow> [] | Some v \<Rightarrow> v))
           (lit ''image/'')"
    and "stdin w = answer # rest" and "py_lower lib answer \<noteq> lit ''y''"
  shows "fst (download_image lib url download_dir w) = None \<and>
         files (snd (download_image lib url download_dir w)) = files w"
  using assms
  by (simp add: download_image_def download_try_def confirm_def py_input_def print_def Let_def)

theorem declined_download_witness:
  "http (demo_world (net_serving (demo_response (lit ''text/html'') [7, 7])) [lit ''n''] [])
      (lit ''https://example.com/page.html'') = Inr (demo_response (lit ''text/html'') [7, 7]) \<and>
   status_error (demo_response (lit ''text/html'') [7, 7]) = None \<and>
   \<not> startswith (py_lower demo_lib
        (case content_type_header (demo_response (lit ''text/html'') [7, 7]) of
           None \<Rightarrow> [] | Some v \<Rightarrow> v)) (lit ''image/'') \<and>
   stdin (demo_world (net_serving (demo_response (lit ''text/html'') [7, 7])) [lit ''n''] [])
     = lit ''n'' # [] \<and>
   py_lower demo_lib (lit ''n'') \<noteq> lit ''y'' \<and>
   fst (download_image demo_lib (lit ''https://example.com/page.html'') (lit ''Fetched_Images'')
      (demo_world (net_serving (demo_response (lit ''text/html'') [7, 7])) [lit ''n''] [])) = None \<and>
   files (snd (download_image demo_lib (lit ''https://example.com/page.html'')
      (lit ''Fetched_Images'')
      (demo_world (net_serving (demo_response (lit ''text/html'') [7, 7])) [lit ''n''] []))) = []"
proof -
  let ?resp = "demo_response (lit ''text/html'') [7, 7]"
  let ?w = "demo_world (net_serving ?resp) [lit ''n''] []"
  have a: "http ?w (lit ''https://example.com/page.html'') = Inr ?resp"
    and b: "status_error ?resp = None"
    and d: "stdin ?w = lit ''n'' # []"
    by (simp_all add: world_eval)
  have c: "\<not> startswith (py_lower demo_lib
        (case content_type_header ?resp of None \<Rightarrow> [] | Some v \<Rightarrow> v)) (lit ''image/'')"
    by (simp add: world_eval startswith_def py_lower_def ascii_lower_def lit_def)
  have e: "py_lower demo_lib (lit ''n'') \<noteq> lit ''y''"
    by (simp add: py_lower_def ascii_lower_def lit_def)
  have f: "files ?w = []"
    by (simp add: world_eval)
  show ?thesis
    using a b c d e f declined_download [OF a b c d e, of "lit ''Fetched_Images''"]
    by simp
qed

subsection \<open>Errors\<close>

lemma handler_message_distinct:
  "kind_of e \<noteq> kind_of e' \<Longrightarrow> handler_message e \<noteq> handler_message e'"
  by (cases e; cases e') (simp_all add: handler_message_def lit_def)

lemma requested_print [simp]: "requested (print s w) = requested w"
  by (simp add: print_def)

lemma requested_py_input: "py_input p w = (r, w') \<Longrightarrow> requested w' = requested w"
  by (auto simp: py_input_def split: list.splits)

lemma requested_write_chunks [simp]: "requested (write_chunks p t cs d w) = requested w"
  by (induction cs arbitrary: d w) (simp_all add: Let_def)

lemma requested_save_body: "save_body p t resp w = (r, w') \<Longrightarrow> requested w' = requested w"
  by (auto simp: save_body_def Let_def split: option.splits)

lemma requested_confirm: "confirm lib ct w = (r, w') \<Longrightarrow> requested w' = requested w"
  by (auto simp: confirm_def Let_def split: if_splits prod.splits sum.splits
           dest!: requested_py_input)

lemma requested_store: "store lib url d ct resp w = (r, w') \<Longrightarrow> requested w' = requested w"
  by (auto simp: store_def Let_def split: sum.splits option.splits prod.splits node.splits
           dest!: requested_save_body)

lemma requested_download_try:
  "download_try lib url d w = (r, w') \<Longrightarrow> requested w' = requested w @ [url]"
  by (auto simp: download_try_def Let_def split: sum.splits option.splits prod.splits bool.splits
           dest!: requested_store requested_confirm)

text \<open>
  C6. Whatever exception \<open>e\<close> of the taxonomy the body of the \<open>try\<close> raises, for the URL read
  at the prompt: \<open>download_image\<close> prints the message of that kind and returns \<open>None\<close>; one
  request was sent and no more; exceptions of another kind get another message; and the
  loop of \<open>main\<close> goes on to ask whether to download another image, starting its next round
  when the answer is \<open>y\<close> and ending with the farewell otherwise.
\<close>

theorem error_reported_loop_continues:
  fixes w0 :: world
  defines "w2 \<equiv> (print (lit ''Enter the image URL (or '' @ [39] @ lit ''quit'' @ [39]
                        @ lit '' to exit): '') (print ([10] @ replicate 30 (ch CHR ''-'')) w0))
                   \<lparr>stdin := tl (stdin w0)\<rparr>"
  assumes "stdin w0 = line # rest0"
    and "strip line \<noteq> []"
    and "py_lower lib (strip line) \<notin> set [lit ''quit'', lit ''exit'', lit ''q'']"
    and "download_try lib (strip line) download_dir w2 = (Inl e, w')"
    and "stdin w' = answer # rest"
  shows "download_image lib (strip line) download_dir w2 = (None, print (handler_message e) w') \<and>
         requested w' = requested w0 @ [strip line] \<and>
         (\<forall>e'. kind_of e' \<noteq> kind_of e \<longrightarrow> handler_message e' \<noteq> handler_message e) \<and>
         main_loop lib download_dir w0 =
           (if py_lower lib answer \<noteq> lit ''y''
            then (None, print (lit ''Goodbye!'')
                    ((print ([10] @ lit ''Download another image? (y/n): '')
                       (print ([10007] @ lit '' Download failed.'')
                          (print (handler_message e) w')))\<lparr>stdin := rest\<rparr>))
            else main_loop lib download_dir
                    ((print ([10] @ lit ''Download another image? (y/n): '')
                       (print ([10007] @ lit '' Download failed.'')
                          (print (handler_message e) w')))\<lparr>stdin := rest\<rparr>))"
proof -
  have dl: "download_image lib (strip line) download_dir w2 = (None, print (handler_message e) w')"
    using assms(5) by (simp add: download_image_def)
  have rq: "requested w' = requested w0 @ [strip line]"
    using requested_download_try [OF assms(5)] by (simp add: w2_def print_def)
  have inp: "py_input (lit ''Enter the image URL (or '' @ [39] @ lit ''quit'' @ [39]
                @ lit '' to exit): '') (print ([10] @ replicate 30 (ch CHR ''-'')) w0)
             = (Inr line, w2)"
    using assms(2) by (simp add: py_input_def w2_def)
  have lb: "loop_body lib download_dir w0 =
      (if py_lower lib answer \<noteq> lit ''y''
       then (Break, print (lit ''Goodbye!'')
                    ((print ([10] @ lit ''Download another image? (y/n): '')
                       (print ([10007] @ lit '' Download failed.'')
                          (print (handler_message e) w')))\<lparr>stdin := rest\<rparr>))
       else (Continue, (print ([10] @ lit ''Download another image? (y/n): '')
                       (print ([10007] @ lit '' Download failed.'')
                          (print (handler_message e) w')))\<lparr>stdin := rest\<rparr>))"
    using assms(3,4,6) inp dl
    by (simp add: loop_body_def Let_def py_input_def)
  have ml: "main_loop lib download_dir w0 =
           (if py_lower lib answer \<noteq> lit ''y''
            then (None, print (lit ''Goodbye!'')
                    ((print ([10] @ lit ''Download another image? (y/n): '')
                       (print ([10007] @ lit '' Download failed.'')
                          (print (handler_message e) w')))\<lparr>stdin := rest\<rparr>))
            else main_loop lib download_dir
                    ((print ([10] @ lit ''Download another image? (y/n): '')
                       (print ([10007] @ lit '' Download failed.'')
                          (print (handler_message e) w')))\<lparr>stdin := rest\<rparr>))"
    by (subst main_loop.simps) (simp add: lb)
  show ?thesis
    using dl rq ml handler_message_distinct by blast
qed

theorem error_reported_loop_continues_witness:
  "stdin (demo_world net_timeout [lit ''https://example.com/cat.jpg'', lit ''y'', lit ''quit''] []) = lit ''https://example.com/cat.jpg'' # [lit ''y'', lit ''quit''] \<and>
   strip (lit ''https://example.com/cat.jpg'') \<noteq> [] \<and>
   py_lower demo_lib (strip (lit ''https://example.com/cat.jpg'')) \<notin> set [lit ''quit'', lit ''exit'', lit ''q''] \<and>
   download_try demo_lib (strip (lit ''https://example.com/cat.jpg'')) (lit ''Fetched_Images'')
      ((print (lit ''Enter the image URL (or '' @ [39] @ lit ''quit'' @ [39] @ lit '' to exit): '')
        (print ([10] @ replicate 30 (ch CHR ''-'')) (demo_world net_timeout [lit ''https://example.com/cat.jpg'', lit ''y'', lit ''quit''] [])))
       \<lparr>stdin := tl (stdin (demo_world net_timeout [lit ''https://example.com/cat.jpg'', lit ''y'', lit ''quit''] []))\<rparr>)
     = (Inl Timeout, snd (download_try demo_lib (strip (lit ''https://example.com/cat.jpg'')) (lit ''Fetched_Images'')
      ((print (lit ''Enter the image URL (or '' @ [39] @ lit ''quit'' @ [39] @ lit '' to exit): '')
        (print ([10] @ replicate 30 (ch CHR ''-'')) (demo_world net_timeout [lit ''https://example.com/cat.jpg'', lit ''y'', lit ''quit''] [])))
       \<lparr>stdin := tl (stdin (demo_world net_timeout [lit ''https://example.com/cat.jpg'', lit ''y'', lit ''quit''] []))\<rparr>))) \<and>
   stdin (snd (download_try demo_lib (strip (lit ''https://example.com/cat.jpg'')) (lit ''Fetched_Images'')
      ((print (lit ''Enter the image URL (or '' @ [39] @ lit ''quit'' @ [39] @ lit '' to exit): '')
        (print ([10] @ replicate 30 (ch CHR ''-'')) (demo_world net_timeout [lit ''https://example.com/cat.jpg'', lit ''y'', lit ''quit''] [])))
       \<lparr>stdin := tl (stdin (demo_world net_timeout [lit ''https://example.com/cat.jpg'', lit ''y'', lit ''quit''] []))\<rparr>))) = lit ''y'' # [lit ''quit''] \<and>
   fst (download_image demo_lib (strip (lit ''https://example.com/cat.jpg'')) (lit ''Fetched_Images'')
      ((print (lit ''Enter the image URL (or '' @ [39] @ lit ''quit'' @ [39] @ lit '' to exit): '')
        (print ([10] @ replicate 30 (ch CHR ''-'')) (demo_world net_timeout [lit ''https://example.com/cat.jpg'', lit ''y'', lit ''quit''] [])))
       \<lparr>stdin := tl (stdin (demo_world net_timeout [lit ''https://example.com/cat.jpg'', lit ''y'', lit ''quit''] []))\<rparr>)) = None \<and>
   requested (snd (download_try demo_lib (strip (lit ''https://example.com/cat.jpg'')) (lit ''Fetched_Images'')
      ((print (lit ''Enter the image URL (or '' @ [39] @ lit ''quit'' @ [39] @ lit '' to exit): '')
        (print ([10] @ replicate 30 (ch CHR ''-'')) (demo_world net_timeout [lit ''https://example.com/cat.jpg'', lit ''y'', lit ''quit''] [])))
       \<lparr>stdin := tl (stdin (demo_world net_timeout [lit ''https://example.com/cat.jpg'', lit ''y'', lit ''quit''] []))\<rparr>))) = [strip (lit ''https://example.com/cat.jpg'')] \<and>
   main_loop demo_lib (lit ''Fetched_Images'') (demo_world net_timeout [lit ''https://example.com/cat.jpg'', lit ''y'', lit ''quit''] [])
     = main_loop demo_lib (lit ''Fetched_Images'')
         ((print ([10] @ lit ''Download another image? (y/n): '')
          (print ([10007] @ lit '' Download failed.'')
             (print (handler_message Timeout) (snd (download_try demo_lib (strip (lit ''https://example.com/cat.jpg'')) (lit ''Fetched_Images'')
      ((print (lit ''Enter the image URL (or '' @ [39] @ lit ''quit'' @ [39] @ lit '' to exit): '')
        (print ([10] @ replicate 30 (ch CHR ''-'')) (demo_world net_timeout [lit ''https://example.com/cat.jpg'', lit ''y'', lit ''quit''] [])))
       \<lparr>stdin := tl (stdin (demo_world net_timeout [lit ''https://example.com/cat.jpg'', lit ''y'', lit ''quit''] []))\<rparr>))))))\<lparr>stdin := [lit ''quit'']\<rparr>)"
proof -
  let ?w0 = "demo_world net_timeout [lit ''https://example.com/cat.jpg'', lit ''y'', lit ''quit''] []"
  let ?url = "lit ''https://example.com/cat.jpg''"
  let ?w2 = "((print (lit ''Enter the image URL (or '' @ [39] @ lit ''quit'' @ [39] @ lit '' to exit): '')
        (print ([10] @ replicate 30 (ch CHR ''-'')) (demo_world net_timeout [lit ''https://example.com/cat.jpg'', lit ''y'', lit ''quit''] [])))
       \<lparr>stdin := tl (stdin (demo_world net_timeout [lit ''https://example.com/cat.jpg'', lit ''y'', lit ''quit''] []))\<rparr>)"
  have a: "stdin ?w0 = ?url # [lit ''y'', lit ''quit'']"
    by (simp add: world_eval)
  have st: "strip ?url = ?url"
    by (simp add: strip_def py_isspace_def lit_def)
  have b: "strip ?url \<noteq> []"
    unfolding st by (simp add: lit_def)
  have c: "py_lower demo_lib (strip ?url) \<notin> set [lit ''quit'', lit ''exit'', lit ''q'']"
    unfolding st by (simp add: py_lower_def ascii_lower_def lit_def)
  have "fst (download_try demo_lib (strip ?url) (lit ''Fetched_Images'') ?w2) = Inl Timeout"
    by (simp add: download_try_def world_eval print_def Let_def)
  then have d: "download_try demo_lib (strip ?url) (lit ''Fetched_Images'') ?w2
      = (Inl Timeout, snd (download_try demo_lib (strip ?url) (lit ''Fetched_Images'') ?w2))"
    by (metis prod.collapse)
  have e: "stdin (snd (download_try demo_lib (strip ?url) (lit ''Fetched_Images'') ?w2))
      = lit ''y'' # [lit ''quit'']"
    by (simp add: download_try_def world_eval print_def Let_def)
  have y: "py_lower demo_lib (lit ''y'') = lit ''y''"
    by (simp add: py_lower_def ascii_lower_def lit_def)
  have r0: "requested ?w0 = []"
    by (simp add: world_eval)
  note t = error_reported_loop_continues [OF a b c d e]
  show ?thesis
    using a b c d e t y r0 by simp
qed

subsection \<open>The written path\<close>

lemma kept_char_no_separator: "kept_char lib c \<Longrightarrow> c \<noteq> slash \<and> c \<noteq> backslash"
  by (auto simp: kept_char_def word_char_def ascii_alnum_def slash_def backslash_def ch_def
           split: if_splits)

lemma resolver_no_separator:
  assumes "get_valid_filename lib timestamp url content_type = Inr filename"
  shows "slash \<notin> set filename \<and> backslash \<notin> set filename"
proof -
  from assms obtain g where "filename = re_sub_unsafe lib g"
    by (auto simp: get_valid_filename_def split: sum.splits)
  then show ?thesis
    using re_sub_unsafe_kept [of _ lib g] kept_char_no_separator [of lib] by blast
qed

lemma numbered_no_separator:
  assumes "slash \<notin> set f" and "backslash \<notin> set f"
  shows "slash \<notin> set (numbered f k) \<and> backslash \<notin> set (numbered f k)"
  using assms suffixed_chars [of f k]
  by (auto simp: numbered_def slash_def backslash_def ch_def)

lemma map_of_filter_other:
  "q \<noteq> p \<Longrightarrow> map_of (filter (\<lambda>(q, c). q \<noteq> p) fs) q = map_of fs q"
  by (induction fs) auto

lemma basename_join:
  assumes "slash \<notin> set g"
  shows "basename (join d g) = g"
proof -
  from join_prefix [OF assms, of d] obtain P
    where P: "P = [] \<or> last P = slash" "\<And>h. slash \<notin> set h \<Longrightarrow> join d h = P @ h"
    by blast
  show ?thesis
    using P(2) [OF assms] after_last_append [OF assms P(1)] by (simp add: basename_def)
qed

lemma opened_name_plain:
  assumes "open_error w (join d g) = None" and "slash \<notin> set g" and "backslash \<notin> set g"
  shows "plain_name g"
proof -
  let ?p = "join d g"
  from assms(1) have a: "dirname ?p = [] \<or> is_dir (files w) (dirname ?p)"
    and b: "basename ?p \<noteq> []" and c: "\<not> is_dir (files w) ?p"
    by (auto simp: open_error_def split: if_splits)
  have g: "basename ?p = g"
    using assms(2) by (rule basename_join)
  have "\<not> special_name g"
  proof
    assume "special_name g"
    moreover have "?p \<noteq> []"
      using b by (auto simp: basename_def after_last_def)
    ultimately have "is_dir (files w) ?p"
      using a g by (simp add: is_dir.simps [of _ "join d g"])
    with c show False ..
  qed
  with b g assms(2,3) show ?thesis
    by (simp add: plain_name_def)
qed

lemma open_error_print [simp]: "open_error (print s w) p = open_error w p"
  by (simp add: open_error_def print_def)

lemma confirm_preserves:
  "confirm lib ct w = (r, w') \<Longrightarrow>
     files w' = files w \<and> clock w' = clock w \<and> open_fault w' = open_fault w"
  by (auto simp: confirm_def py_input_def print_def Let_def
           split: if_splits prod.splits sum.splits list.splits)

lemma store_cases:
  assumes "store lib url d ct resp w = (res, w')"
  shows "(files w' = files w \<and> (\<exists>e. res = Inl e)) \<or>
         (\<exists>f. get_valid_filename lib (clock w) url ct = Inr f \<and>
              open_error w (free_path (files w) d f) = None \<and>
              files w' = (free_path (files w) d f, File (concat (iter_content resp 8192)))
                         # filter (\<lambda>(q, n). q \<noteq> free_path (files w) d f) (files w) \<and>
              (res = Inr (Some (free_path (files w) d f)) \<or> (\<exists>e. res = Inl e)))"
proof (cases "get_valid_filename lib (clock w) url ct")
  case (Inl e)
  with assms show ?thesis
    by (auto simp: store_def)
next
  case (Inr f)
  let ?p = "free_path (files w) d f"
  let ?w1 = "print (lit ''Downloading to: '' @ ?p) w"
  show ?thesis
  proof (cases "case content_length_header resp of None \<Rightarrow> Inr 0 | Some v \<Rightarrow> int_of_str lib v")
    case (Inl msg)
    with assms Inr show ?thesis
      by (auto simp: store_def Let_def print_def)
  next
    case t: (Inr t)
    show ?thesis
    proof (cases "open_error w ?p")
      case (Some msg)
      then have "save_body ?p t resp ?w1 = (Some (IOError msg), ?w1)"
        by (intro save_body_refused) simp
      with assms Inr t show ?thesis
        by (auto simp: store_def Let_def print_def)
    next
      case None
      then have o: "open_error ?w1 ?p = None"
        by simp
      obtain e w2 where sb: "save_body ?p t resp ?w1 = (e, w2)"
        by (cases "save_body ?p t resp ?w1")
      from save_body_opened(1,2) [OF o, of t resp] sb
      have e: "e = body_error resp"
        and fw: "files w2 = (?p, File (concat (iter_content resp 8192)))
                            # filter (\<lambda>(q, n). q \<noteq> ?p) (files w)"
        by (simp_all add: print_def)
      from assms Inr t sb fw have "files w' = files w2 \<and> (res = Inr (Some ?p) \<or> (\<exists>x. res = Inl x))"
        by (cases e) (auto simp: store_def Let_def print_def)
      with Inr None fw show ?thesis
        by simp
    qed
  qed
qed

lemma open_error_cong:
  "files a = files b \<Longrightarrow> open_fault a = open_fault b \<Longrightarrow> open_error a p = open_error b p"
  by (simp add: open_error_def)

lemma download_cases:
  assumes "download_image lib url d w = (r, w')"
  shows "(r = None \<and> files w' = files w) \<or>
         (\<exists>ct f content. get_valid_filename lib (clock w) url ct = Inr f \<and>
              open_error w (free_path (files w) d f) = None \<and>
              files w' = (free_path (files w) d f, File content)
                         # filter (\<lambda>(q, n). q \<noteq> free_path (files w) d f) (files w) \<and>
              (r = Some (free_path (files w) d f) \<or> r = None))"
proof -
  obtain res w1 where tr: "download_try lib url d w = (res, w1)"
    by (cases "download_try lib url d w")
  with assms have r: "r = (case res of Inl e \<Rightarrow> None | Inr x \<Rightarrow> x)" and fw: "files w' = files w1"
    by (auto simp: download_image_def print_def split: sum.splits)
  let ?w2 = "(print (lit ''Connecting to: '' @ url) w)\<lparr>requested := requested w @ [url]\<rparr>"
  have w2: "files ?w2 = files w" "clock ?w2 = clock w" "open_fault ?w2 = open_fault w"
    by (simp_all add: print_def)
  show ?thesis
  proof (cases "http w url")
    case (Inl e)
    with tr r fw show ?thesis
      by (auto simp: download_try_def Let_def print_def)
  next
    case (Inr resp)
    show ?thesis
    proof (cases "status_error resp")
      case (Some msg)
      with tr r fw Inr show ?thesis
        by (auto simp: download_try_def Let_def print_def)
    next
      case None
      let ?ct = "py_lower lib (case content_type_header resp of None \<Rightarrow> [] | Some v \<Rightarrow> v)"
      obtain c w3 where c: "confirm lib ?ct ?w2 = (c, w3)"
        by (cases "confirm lib ?ct ?w2")
      from confirm_preserves [OF c] w2
      have w3: "files w3 = files w" "clock w3 = clock w" "open_fault w3 = open_fault w"
        by simp_all
      show ?thesis
      proof (cases c)
        case (Inl e)
        with tr r fw Inr None c w3 show ?thesis
          by (auto simp: download_try_def Let_def print_def)
      next
        case b: (Inr b)
        show ?thesis
        proof (cases b)
          case False
          with tr r fw Inr None c w3 b show ?thesis
            by (auto simp: download_try_def Let_def print_def)
        next
          case True
          with tr Inr None c b have st: "store lib url d ?ct resp w3 = (res, w1)"
            by (simp add: download_try_def Let_def print_def)
          have oe: "\<And>p. open_error w3 p = open_error w p"
            using w3 by (intro open_error_cong) simp_all
          from store_cases [OF st] show ?thesis
          proof
            assume "files w1 = files w3 \<and> (\<exists>e. res = Inl e)"
            with r fw w3 show ?thesis by auto
          next
            assume "\<exists>f. get_valid_filename lib (clock w3) url ?ct = Inr f \<and>
              open_error w3 (free_path (files w3) d f) = None \<and>
              files w1 = (free_path (files w3) d f, File (concat (iter_content resp 8192)))
                         # filter (\<lambda>(q, n). q \<noteq> free_path (files w3) d f) (files w3) \<and>
              (res = Inr (Some (free_path (files w3) d f)) \<or> (\<exists>e. res = Inl e))"
            then obtain f where f: "get_valid_filename lib (clock w) url ?ct = Inr f"
              and o: "open_error w (free_path (files w) d f) = None"
              and w: "files w' = (free_path (files w) d f, File (concat (iter_content resp 8192)))
                         # filter (\<lambda>(q, n). q \<noteq> free_path (files w) d f) (files w)"
              and x: "res = Inr (Some (free_path (files w) d f)) \<or> (\<exists>e. res = Inl e)"
              using w3 oe fw by auto
            from x r have "r = Some (free_path (files w) d f) \<or> r = None"
              by auto
            with f o w show ?thesis
              by (intro disjI2 exI [of _ ?ct] exI [of _ f]
                    exI [of _ "concat (iter_content resp 8192)"]) simp
          qed
        qed
      qed
    qed
  qed
qed

lemma download_happy_path:
  assumes "http w url = Inr resp" and "status_error resp = None"
    and "startswith (py_lower lib (case content_type_header resp of None \<Rightarrow> [] | Some v \<Rightarrow> v))
           (lit ''image/'')"
    and "get_valid_filename lib (clock w) url
           (py_lower lib (case content_type_header resp of None \<Rightarrow> [] | Some v \<Rightarrow> v)) = Inr f"
    and "(case content_length_header resp of None \<Rightarrow> Inr 0 | Some v \<Rightarrow> int_of_str lib v) = Inr t"
    and "open_error w (free_path (files w) d f) = None" and "body_error resp = None"
  shows "fst (download_image lib url d w) = Some (free_path (files w) d f)"
    and "files (snd (download_image lib url d w))
           = (free_path (files w) d f, File (concat (iter_content resp 8192)))
             # filter (\<lambda>(q, n). q \<noteq> free_path (files w) d f) (files w)"
proof -
  let ?p = "free_path (files w) d f"
  let ?w1 = "print (lit ''Downloading to: '' @ ?p)
               ((print (lit ''Connecting to: '' @ url) w)\<lparr>requested := requested w @ [url]\<rparr>)"
  have o: "open_error ?w1 ?p = None"
    using assms(6) open_error_cong [of ?w1 w ?p] by (simp add: print_def)
  obtain r w2 where sb: "save_body ?p t resp ?w1 = (r, w2)"
    by (cases "save_body ?p t resp ?w1")
  from save_body_opened(1,2) [OF o, of t resp] sb assms(7)
  have r: "r = None"
    and fw: "files w2 = (?p, File (concat (iter_content resp 8192)))
                        # filter (\<lambda>(q, n). q \<noteq> ?p) (files w)"
    by (simp_all add: print_def)
  show "fst (download_image lib url d w) = Some ?p"
    and "files (snd (download_image lib url d w))
           = (?p, File (concat (iter_content resp 8192))) # filter (\<lambda>(q, n). q \<noteq> ?p) (files w)"
    using assms(1-5) sb r fw
    by (simp_all add: download_image_def download_try_def confirm_def store_def Let_def print_def)
qed

lemma download_refused:
  assumes "http w url = Inr resp" and "status_error resp = None"
    and "startswith (py_lower lib (case content_type_header resp of None \<Rightarrow> [] | Some v \<Rightarrow> v))
           (lit ''image/'')"
    and "get_valid_filename lib (clock w) url
           (py_lower lib (case content_type_header resp of None \<Rightarrow> [] | Some v \<Rightarrow> v)) = Inr f"
    and "(case content_length_header resp of None \<Rightarrow> Inr 0 | Some v \<Rightarrow> int_of_str lib v) = Inr t"
    and "open_error w (free_path (files w) d f) = Some msg"
  shows "fst (download_image lib url d w) = None"
    and "files (snd (download_image lib url d w)) = files w"
proof -
  let ?p = "free_path (files w) d f"
  let ?w1 = "print (lit ''Downloading to: '' @ ?p)
               ((print (lit ''Connecting to: '' @ url) w)\<lparr>requested := requested w @ [url]\<rparr>)"
  have "open_error ?w1 ?p = Some msg"
    using assms(6) open_error_cong [of ?w1 w ?p] by (simp add: print_def)
  then have sb: "save_body ?p t resp ?w1 = (Some (IOError msg), ?w1)"
    by (rule save_body_refused)
  show "fst (download_image lib url d w) = None"
    and "files (snd (download_image lib url d w)) = files w"
    using assms(1-5) sb
    by (simp_all add: download_image_def download_try_def confirm_def store_def Let_def print_def)
qed

text \<open>
  C10. The output of the Filename Resolver holds neither \<open>/\<close> nor a backslash. Whatever an
  attempt of the Fetcher returns, either it returns \<open>None\<close> and leaves the disk as it was,
  or the one path it wrote is the join of the output directory with the resolved filename,
  possibly with \<open>_N\<close> before its extension, and the path it returns, if any, is that one.
  That last component is a plain name (not empty, no separator, neither \<open>.\<close> nor \<open>..\<close>), so
  the file lies in the output directory; the path did not exist before, and no other path
  of the disk is touched.
\<close>

theorem path_stays_in_directory:
  "(get_valid_filename lib timestamp url content_type = Inr filename \<longrightarrow>
      slash \<notin> set filename \<and> backslash \<notin> set filename) \<and>
   (download_image lib url download_dir w = (r, w') \<longrightarrow>
      (r = None \<and> files w' = files w) \<or>
      (\<exists>ct f k. get_valid_filename lib (clock w) url ct = Inr f \<and>
         (r = None \<or> r = Some (join download_dir (numbered f k))) \<and>
         plain_name (numbered f k) \<and>
         \<not> path_exists (files w) (join download_dir (numbered f k)) \<and>
         (\<exists>content. map_of (files w') (join download_dir (numbered f k)) = Some (File content)) \<and>
         (\<forall>q. q \<noteq> join download_dir (numbered f k) \<longrightarrow>
              map_of (files w') q = map_of (files w) q)))"
proof (intro conjI impI)
  assume "get_valid_filename lib timestamp url content_type = Inr filename"
  then show "slash \<notin> set filename" "backslash \<notin> set filename"
    using resolver_no_separator by blast+
next
  assume "download_image lib url download_dir w = (r, w')"
  from download_cases [OF this]
  show "(r = None \<and> files w' = files w) \<or>
      (\<exists>ct f k. get_valid_filename lib (clock w) url ct = Inr f \<and>
         (r = None \<or> r = Some (join download_dir (numbered f k))) \<and>
         plain_name (numbered f k) \<and>
         \<not> path_exists (files w) (join download_dir (numbered f k)) \<and>
         (\<exists>content. map_of (files w') (join download_dir (numbered f k)) = Some (File content)) \<and>
         (\<forall>q. q \<noteq> join download_dir (numbered f k) \<longrightarrow>
              map_of (files w') q = map_of (files w) q))"
  proof
    assume "r = None \<and> files w' = files w"
    then show ?thesis ..
  next
    assume "\<exists>ct f content. get_valid_filename lib (clock w) url ct = Inr f \<and>
              open_error w (free_path (files w) download_dir f) = None \<and>
              files w' = (free_path (files w) download_dir f, File content)
                         # filter (\<lambda>(q, n). q \<noteq> free_path (files w) download_dir f) (files w) \<and>
              (r = Some (free_path (files w) download_dir f) \<or> r = None)"
    then obtain ct f content where f: "get_valid_filename lib (clock w) url ct = Inr f"
      and o: "open_error w (free_path (files w) download_dir f) = None"
      and fw: "files w' = (free_path (files w) download_dir f, File content)
                 # filter (\<lambda>(q, n). q \<noteq> free_path (files w) download_dir f) (files w)"
      and r: "r = Some (free_path (files w) download_dir f) \<or> r = None"
      by (elim exE conjE)
    from resolver_no_separator [OF f] have ns: "slash \<notin> set f" "backslash \<notin> set f"
      by simp_all
    from first_free [OF ns(1), of "files w" download_dir] obtain k where
      k: "free_path (files w) download_dir f = join download_dir (numbered f k)"
        "\<not> path_exists (files w) (join download_dir (numbered f k))"
      by auto
    let ?p = "join download_dir (numbered f k)"
    note nn = numbered_no_separator [OF ns, of k]
    have pl: "plain_name (numbered f k)"
      using o nn unfolding k(1) by (intro opened_name_plain [of w download_dir]) simp_all
    have m1: "map_of (files w') ?p = Some (File content)"
      unfolding fw k(1) by simp
    have m2: "\<forall>q. q \<noteq> ?p \<longrightarrow> map_of (files w') q = map_of (files w) q"
      unfolding fw k(1) by (simp add: map_of_filter_other)
    from r have r': "r = None \<or> r = Some ?p"
      unfolding k(1) by auto
    have m1': "\<exists>content. map_of (files w') ?p = Some (File content)"
      using m1 by (rule exI)
    have "get_valid_filename lib (clock w) url ct = Inr f \<and>
         (r = None \<or> r = Some ?p) \<and> plain_name (numbered f k) \<and>
         \<not> path_exists (files w) ?p \<and>
         (\<exists>content. map_of (files w') ?p = Some (File content)) \<and>
         (\<forall>q. q \<noteq> ?p \<longrightarrow> map_of (files w') q = map_of (files w) q)"
      by (intro conjI) (rule f r' pl k(2) m1' m2)+
    then have "\<exists>ct f k. get_valid_filename lib (clock w) url ct = Inr f \<and>
         (r = None \<or> r = Some (join download_dir (numbered f k))) \<and>
         plain_name (numbered f k) \<and>
         \<not> path_exists (files w) (join download_dir (numbered f k)) \<and>
         (\<exists>content. map_of (files w') (join download_dir (numbered f k)) = Some (File content)) \<and>
         (\<forall>q. q \<noteq> join download_dir (numbered f k) \<longrightarrow>
              map_of (files w') q = map_of (files w) q)"
      by (intro exI)
    then show ?thesis ..
  qed
qed

lemma demo_cat_download:
  "fst (download_image demo_lib (lit ''https://example.com/pics/cat.jpg'') (lit ''Fetched_Images'')
        (demo_world (net_serving (demo_response (lit ''image/jpeg'') [7, 7])) []
           [(lit ''Fetched_Images'', Directory), (lit ''Fetched_Images/cat.jpg'', File [5, 6])]))
     = Some (lit ''Fetched_Images/cat_1.jpg'')"
proof -
  let ?resp = "demo_response (lit ''image/jpeg'') [7, 7]"
  let ?w = "demo_world (net_serving (demo_response (lit ''image/jpeg'') [7, 7])) []
           [(lit ''Fetched_Images'', Directory), (lit ''Fetched_Images/cat.jpg'', File [5, 6])]"
  let ?url = "lit ''https://example.com/pics/cat.jpg''"
  have g: "get_valid_filename demo_lib (lit ''20260101_000000'') ?url (lit ''image/jpeg'')
             = Inr (lit ''cat.jpg'')"
    by (simp add: resolver_eval)
  have ct: "py_lower demo_lib (case content_type_header ?resp of None \<Rightarrow> [] | Some v \<Rightarrow> v)
             = lit ''image/jpeg''"
    by (simp add: world_eval py_lower_def ascii_lower_def lit_def)
  have fl: "files ?w = [(lit ''Fetched_Images'', Directory), (lit ''Fetched_Images/cat.jpg'', File [5, 6])]"
    and ck: "clock ?w = lit ''20260101_000000''"
    and a1: "http ?w ?url = Inr ?resp" and a2: "status_error ?resp = None"
    and a5: "(case content_length_header ?resp of None \<Rightarrow> Inr 0
              | Some v \<Rightarrow> int_of_str demo_lib v) = Inr 0"
    and a7: "body_error ?resp = None"
    by (simp_all add: world_eval)
  have fp: "free_path [(lit ''Fetched_Images'', Directory), (lit ''Fetched_Images/cat.jpg'', File [5, 6])]
              (lit ''Fetched_Images'') (lit ''cat.jpg'') = lit ''Fetched_Images/cat_1.jpg''"
    by code_simp
  have a3: "startswith (py_lower demo_lib
        (case content_type_header ?resp of None \<Rightarrow> [] | Some v \<Rightarrow> v)) (lit ''image/'')"
    unfolding ct by (simp add: startswith_def lit_def)
  have a4: "get_valid_filename demo_lib (clock ?w) ?url
        (py_lower demo_lib (case content_type_header ?resp of None \<Rightarrow> [] | Some v \<Rightarrow> v))
      = Inr (lit ''cat.jpg'')"
    unfolding ct ck by (rule g)
  have "open_error ?w (lit ''Fetched_Images/cat_1.jpg'') = None"
    by code_simp
  then have a6: "open_error ?w (free_path (files ?w) (lit ''Fetched_Images'') (lit ''cat.jpg'')) = None"
    unfolding fl fp .
  show ?thesis
    using download_happy_path(1) [OF a1 a2 a3 a4 a5 a6 a7] fl fp by simp
qed

theorem path_stays_in_directory_witness:
  "get_valid_filename demo_lib (lit ''20260101_000000'') (lit ''https://example.com/pics/cat.jpg'') (lit ''image/jpeg'')
     = Inr (lit ''cat.jpg'') \<and>
   download_image demo_lib (lit ''https://example.com/pics/cat.jpg'') (lit ''Fetched_Images'')
        (demo_world (net_serving (demo_response (lit ''image/jpeg'') [7, 7])) []
           [(lit ''Fetched_Images'', Directory), (lit ''Fetched_Images/cat.jpg'', File [5, 6])])
     = (Some (lit ''Fetched_Images/cat_1.jpg''),
        snd (download_image demo_lib (lit ''https://example.com/pics/cat.jpg'') (lit ''Fetched_Images'')
        (demo_world (net_serving (demo_response (lit ''image/jpeg'') [7, 7])) []
           [(lit ''Fetched_Images'', Directory), (lit ''Fetched_Images/cat.jpg'', File [5, 6])]))) \<and>
   slash \<notin> set (lit ''cat.jpg'') \<and> backslash \<notin> set (lit ''cat.jpg'') \<and>
   (\<exists>ct f k. get_valid_filename demo_lib
          (clock (demo_world (net_serving (demo_response (lit ''image/jpeg'') [7, 7])) []
           [(lit ''Fetched_Images'', Directory), (lit ''Fetched_Images/cat.jpg'', File [5, 6])])) (lit ''https://example.com/pics/cat.jpg'') ct = Inr f \<and>
      Some (lit ''Fetched_Images/cat_1.jpg'') = Some (join (lit ''Fetched_Images'') (numbered f k)) \<and>
      plain_name (numbered f k))"
proof -
  let ?w = "demo_world (net_serving (demo_response (lit ''image/jpeg'') [7, 7])) []
           [(lit ''Fetched_Images'', Directory), (lit ''Fetched_Images/cat.jpg'', File [5, 6])]"
  let ?url = "lit ''https://example.com/pics/cat.jpg''"
  have g: "get_valid_filename demo_lib (lit ''20260101_000000'') ?url (lit ''image/jpeg'')
             = Inr (lit ''cat.jpg'')"
    by (simp add: resolver_eval)
  have d: "download_image demo_lib ?url (lit ''Fetched_Images'') ?w
      = (Some (lit ''Fetched_Images/cat_1.jpg''),
         snd (download_image demo_lib ?url (lit ''Fetched_Images'') ?w))"
    using demo_cat_download by (metis prod.collapse)
  note t = path_stays_in_directory [of demo_lib "lit ''20260101_000000''" ?url "lit ''image/jpeg''"
      "lit ''cat.jpg''" "lit ''Fetched_Images''" ?w "Some (lit ''Fetched_Images/cat_1.jpg'')"
      "snd (download_image demo_lib ?url (lit ''Fetched_Images'') ?w)"]
  from t [THEN conjunct1, THEN mp, OF g]
  have s1: "slash \<notin> set (lit ''cat.jpg'') \<and> backslash \<notin> set (lit ''cat.jpg'')" .
  from t [THEN conjunct2, THEN mp, OF d]
  obtain ct f k where "get_valid_filename demo_lib (clock ?w) ?url ct = Inr f"
    and "Some (lit ''Fetched_Images/cat_1.jpg'') = Some (join (lit ''Fetched_Images'') (numbered f k))"
    and "plain_name (numbered f k)"
    by (elim disjE exE conjE) simp_all
  then have "\<exists>ct f k. get_valid_filename demo_lib (clock ?w) ?url ct = Inr f \<and>
      Some (lit ''Fetched_Images/cat_1.jpg'') = Some (join (lit ''Fetched_Images'') (numbered f k)) \<and>
      plain_name (numbered f k)"
    by (intro exI conjI)
  with g d s1 show ?thesis
    by (intro conjI) simp_all
qed

text \<open>
  The URL \<open>https://example.com/..\<close> resolves to the filename \<open>..\<close>. In an existing output
  directory the path \<open>Fetched_Images/..\<close> exists, so the loop moves on and the file is
  \<open>Fetched_Images/.._1\<close>; where the output directory does not exist, \<open>open\<close> fails and
  nothing is returned or written.
\<close>

lemma dotdot_inside_directory:
  "fst (download_image demo_lib (lit ''https://example.com/..'') (lit ''Fetched_Images'')
        (demo_world (net_serving (demo_response (lit ''image/jpeg'') [7, 7])) [] [(lit ''Fetched_Images'', Directory)])) = Some (lit ''Fetched_Images/.._1'')"
proof -
  let ?resp = "demo_response (lit ''image/jpeg'') [7, 7]"
  let ?w = "demo_world (net_serving (demo_response (lit ''image/jpeg'') [7, 7])) [] [(lit ''Fetched_Images'', Directory)]"
  let ?url = "lit ''https://example.com/..''"
  have g: "get_valid_filename demo_lib (lit ''20260101_000000'') ?url (lit ''image/jpeg'')
             = Inr (lit ''..'')"
    by (simp add: resolver_eval)
  have ct: "py_lower demo_lib (case content_type_header ?resp of None \<Rightarrow> [] | Some v \<Rightarrow> v)
             = lit ''image/jpeg''"
    by (simp add: world_eval py_lower_def ascii_lower_def lit_def)
  have fl: "files ?w = [(lit ''Fetched_Images'', Directory)]"
    and ck: "clock ?w = lit ''20260101_000000''"
    and a1: "http ?w ?url = Inr ?resp" and a2: "status_error ?resp = None"
    and a5: "(case content_length_header ?resp of None \<Rightarrow> Inr 0
              | Some v \<Rightarrow> int_of_str demo_lib v) = Inr 0"
    and a7: "body_error ?resp = None"
    by (simp_all add: world_eval)
  have fp: "free_path [(lit ''Fetched_Images'', Directory)] (lit ''Fetched_Images'') (lit ''..'')
              = lit ''Fetched_Images/.._1''"
    by code_simp
  have a3: "startswith (py_lower demo_lib
        (case content_type_header ?resp of None \<Rightarrow> [] | Some v \<Rightarrow> v)) (lit ''image/'')"
    unfolding ct by (simp add: startswith_def lit_def)
  have a4: "get_valid_filename demo_lib (clock ?w) ?url
        (py_lower demo_lib (case content_type_header ?resp of None \<Rightarrow> [] | Some v \<Rightarrow> v))
      = Inr (lit ''..'')"
    unfolding ct ck by (rule g)
  have "open_error ?w (lit ''Fetched_Images/.._1'') = None"
    by code_simp
  then have a6: "open_error ?w (free_path (files ?w) (lit ''Fetched_Images'') (lit ''..'')) = None"
    unfolding fl fp .
  show ?thesis
    using download_happy_path(1) [OF a1 a2 a3 a4 a5 a6 a7] fl fp by simp
qed

lemma dotdot_without_directory:
  "fst (download_image demo_lib (lit ''https://example.com/..'') (lit ''Fetched_Images'')
        (demo_world (net_serving (demo_response (lit ''image/jpeg'') [7, 7])) [] [])) = None \<and>
   files (snd (download_image demo_lib (lit ''https://example.com/..'') (lit ''Fetched_Images'')
        (demo_world (net_serving (demo_response (lit ''image/jpeg'') [7, 7])) [] []))) = []"
proof -
  let ?resp = "demo_response (lit ''image/jpeg'') [7, 7]"
  let ?w = "demo_world (net_serving (demo_response (lit ''image/jpeg'') [7, 7])) [] []"
  let ?url = "lit ''https://example.com/..''"
  have g: "get_valid_filename demo_lib (lit ''20260101_000000'') ?url (lit ''image/jpeg'')
             = Inr (lit ''..'')"
    by (simp add: resolver_eval)
  have ct: "py_lower demo_lib (case content_type_header ?resp of None \<Rightarrow> [] | Some v \<Rightarrow> v)
             = lit ''image/jpeg''"
    by (simp add: world_eval py_lower_def ascii_lower_def lit_def)
  have fl: "files ?w = []"
    and ck: "clock ?w = lit ''20260101_000000''"
    and a1: "http ?w ?url = Inr ?resp" and a2: "status_error ?resp = None"
    and a5: "(case content_length_header ?resp of None \<Rightarrow> Inr 0
              | Some v \<Rightarrow> int_of_str demo_lib v) = Inr 0"
    by (simp_all add: world_eval)
  have fp: "free_path [] (lit ''Fetched_Images'') (lit ''..'') = lit ''Fetched_Images/..''"
    by code_simp
  have a3: "startswith (py_lower demo_lib
        (case content_type_header ?resp of None \<Rightarrow> [] | Some v \<Rightarrow> v)) (lit ''image/'')"
    unfolding ct by (simp add: startswith_def lit_def)
  have a4: "get_valid_filename demo_lib (clock ?w) ?url
        (py_lower demo_lib (case content_type_header ?resp of None \<Rightarrow> [] | Some v \<Rightarrow> v))
      = Inr (lit ''..'')"
    unfolding ct ck by (rule g)
  have "open_error ?w (lit ''Fetched_Images/..'') = Some (lit ''No such file or directory'')"
    by code_simp
  then have a6: "open_error ?w (free_path (files ?w) (lit ''Fetched_Images'') (lit ''..''))
      = Some (lit ''No such file or directory'')"
    unfolding fl fp .
  show ?thesis
    using download_refused [OF a1 a2 a3 a4 a5 a6] fl by simp
qed

subsection \<open>The fallback extension\<close>

lemma spec_subtype_single:
  assumes "slash \<notin> set ty"
  shows "spec_subtype (ty @ slash # rest) = before (ch CHR '';'') rest"
proof -
  have "\<And>x. x \<in> set ty \<Longrightarrow> x \<noteq> slash"
    using assms by auto
  then have "dropWhile (\<lambda>c. c \<noteq> slash) (ty @ slash # rest)
      = dropWhile (\<lambda>c. c \<noteq> slash) (slash # rest)"
    by (rule dropWhile_append2)
  then show ?thesis
    by (simp add: spec_subtype_def)
qed

lemma fallback_extension_single:
  assumes "slash \<notin> set ty" and "slash \<notin> set rest"
  shows "fallback_extension (ty @ slash # rest) = strip (spec_subtype (ty @ slash # rest))"
proof -
  have "after_last slash ((ty @ [slash]) @ rest) = rest"
    using assms(2) by (intro after_last_append) simp_all
  then show ?thesis
    by (simp add: fallback_extension_def spec_subtype_single [OF assms(1)])
qed

lemma fallback_extension_bin:
  "content_type = [] \<or> slash \<notin> set content_type \<Longrightarrow> fallback_extension content_type = lit ''bin''"
  by (auto simp: fallback_extension_def)

text \<open>
  C4. With one \<open>/\<close> in the content type the extension is the subtype, cut at \<open>;\<close>, trimmed
  and in the case given, and without any \<open>/\<close> it is \<open>bin\<close>, as the two lemmas above say. With
  a \<open>/\<close> inside the parameters it is not: the source takes the text after the last \<open>/\<close>,
  so \<open>multipart/related; type="text/xml"\<close> gives the extension \<open>xml"\<close>, a piece of the
  parameter, where the subtype is \<open>related\<close>, and the file is named \<open>image_....xml_\<close>.
\<close>

theorem extension_from_parameter:
  "fallback_extension (lit ''multipart/related; type='' @ [34] @ lit ''text/xml'' @ [34])
     = lit ''xml'' @ [34]
   \<and> spec_subtype (lit ''multipart/related; type='' @ [34] @ lit ''text/xml'' @ [34])
     = lit ''related''
   \<and> get_valid_filename demo_lib (lit ''20260101_000000'') (lit ''https://example.com/render?id=9'')
        (lit ''multipart/related; type='' @ [34] @ lit ''text/xml'' @ [34])
     = Inr (lit ''image_20260101_000000.xml_'')"
  by (simp add: resolver_eval)

end
